theory Spec2Isabelle
  imports Main
begin

section \<open>The message store (table \<open>messages\<close> of dexter.js)\<close>

text \<open>
  The bot keeps its durable log in one PostgreSQL table, created by
  \<open>initializeDatabase\<close>:
  \<^verbatim>\<open>
  CREATE TABLE IF NOT EXISTS messages (
    id SERIAL PRIMARY KEY,
    message_id TEXT NOT NULL, sender_jid TEXT NOT NULL, remote_jid TEXT NOT NULL,
    message_text TEXT, message_type TEXT,
    timestamp TIMESTAMP WITH TIME ZONE DEFAULT CURRENT_TIMESTAMP,
    is_deleted BOOLEAN DEFAULT FALSE,
    deleted_at TIMESTAMP WITH TIME ZONE, deleted_by TEXT,
    sri_lanka_time TIMESTAMP WITH TIME ZONE DEFAULT (NOW() AT TIME ZONE 'Asia/Colombo'),
    auto_reply_sent BOOLEAN DEFAULT FALSE )   -- plus  image_url TEXT
  \<close>
  The only key of the table is the surrogate \<open>id\<close>, drawn from a sequence; the
  column \<open>message_id\<close> carries no UNIQUE constraint. A row is a record, the table a
  list of rows in insertion order, the sequence a counter. Instants are integers
  (milliseconds), nullable columns are options.
\<close>

type_synonym instant = int

record message_row =
  row_id :: nat
  message_id :: string
  sender_jid :: string
  remote_jid :: string
  message_text :: string
  message_type :: string
  row_timestamp :: instant
  is_deleted :: bool
  deleted_at :: "instant option"
  deleted_by :: "string option"
  sri_lanka_time :: instant
  auto_reply_sent :: bool
  image_url :: "string option"

record database =
  messages :: "message_row list"
  messages_id_seq :: nat

datatype error =
    UniqueViolation
  | ConnectionError
  | SyntaxError
  | TypeError

definition empty_database :: database where
  "empty_database = \<lparr>messages = [], messages_id_seq = 0\<rparr>"

text \<open>
  \<^verbatim>\<open>INSERT INTO messages (message_id, sender_jid, remote_jid, message_text,
     message_type, image_url, sri_lanka_time, auto_reply_sent) VALUES ($1, ..., $8)\<close>
  The statement names no \<open>id\<close>: the sequence supplies the next one, and the primary
  key is the one constraint that can refuse the row. The remaining columns take
  their defaults (\<open>is_deleted\<close> false, \<open>deleted_at\<close> and \<open>deleted_by\<close> null,
  \<open>timestamp\<close> the statement's time \<open>now\<close>).
\<close>

definition sql_insert_message ::
  "database \<Rightarrow> string \<Rightarrow> string \<Rightarrow> string \<Rightarrow> string \<Rightarrow> string \<Rightarrow> string option \<Rightarrow> instant
     \<Rightarrow> bool \<Rightarrow> instant \<Rightarrow> error + database" where
  "sql_insert_message d mid sender remote txt ty img slt ars now =
     (let i = Suc (messages_id_seq d) in
      if i \<in> row_id ` set (messages d) then Inl UniqueViolation
      else Inr \<lparr>messages = messages d @
                    [\<lparr>row_id = i, message_id = mid, sender_jid = sender, remote_jid = remote,
                      message_text = txt, message_type = ty, row_timestamp = now,
                      is_deleted = False, deleted_at = None, deleted_by = None,
                      sri_lanka_time = slt, auto_reply_sent = ars, image_url = img\<rparr>],
                messages_id_seq = i\<rparr>)"

text \<open>
  \<^verbatim>\<open>UPDATE messages SET is_deleted = TRUE, deleted_at = NOW(), deleted_by = $1
     WHERE message_id = $2\<close> (handleDeletedMessage).
\<close>

definition sql_update_deleted :: "database \<Rightarrow> string \<Rightarrow> string \<Rightarrow> instant \<Rightarrow> database" where
  "sql_update_deleted d deleterJid mid now =
     d\<lparr>messages :=
        map (\<lambda>r. if message_id r = mid
                 then r\<lparr>is_deleted := True, deleted_at := Some now, deleted_by := Some deleterJid\<rparr>
                 else r)
            (messages d)\<rparr>"

text \<open>\<^verbatim>\<open>UPDATE messages SET auto_reply_sent = TRUE WHERE message_id = $1\<close>\<close>

definition sql_update_auto_reply_sent :: "database \<Rightarrow> string \<Rightarrow> database" where
  "sql_update_auto_reply_sent d mid =
     d\<lparr>messages :=
        map (\<lambda>r. if message_id r = mid then r\<lparr>auto_reply_sent := True\<rparr> else r) (messages d)\<rparr>"

text \<open>\<^verbatim>\<open>SELECT * FROM messages WHERE message_id = $1\<close>\<close>

definition sql_select_by_message_id :: "database \<Rightarrow> string \<Rightarrow> message_row list" where
  "sql_select_by_message_id d mid = filter (\<lambda>r. message_id r = mid) (messages d)"

text \<open>
  \<^verbatim>\<open>SELECT ... FROM messages WHERE is_deleted = TRUE AND image_url IS NOT NULL\<close>
  (the listing branch of handleDelete).
\<close>

definition sql_select_deleted_with_images :: "database \<Rightarrow> message_row list" where
  "sql_select_deleted_with_images d =
     filter (\<lambda>r. is_deleted r \<and> image_url r \<noteq> None) (messages d)"

text \<open>
  The two facts about stored rows that the handlers rely on: ids handed out by the
  sequence are never reused, and a row flagged deleted carries its deletion time and
  its deleter.
\<close>

definition seq_fresh :: "database \<Rightarrow> bool" where
  "seq_fresh d = list_all (\<lambda>r. row_id r \<le> messages_id_seq d) (messages d)"

definition deleted_complete :: "message_row \<Rightarrow> bool" where
  "deleted_complete r = (if is_deleted r then deleted_at r \<noteq> None \<and> deleted_by r \<noteq> None else True)"

definition deletion_invariant :: "database \<Rightarrow> bool" where
  "deletion_invariant d = list_all deleted_complete (messages d)"

definition count_message_id :: "database \<Rightarrow> string \<Rightarrow> nat" where
  "count_message_id d mid = length (sql_select_by_message_id d mid)"

subsection \<open>The administrative wipe: handleDelete\<close>

text \<open>
  \<^verbatim>\<open>
  async function handleDelete(clear = false) {
    try {
      if (clear) {
        const client = await pool.connect();
        try {
          await client.query('BEGIN');
          await client.query('DELETE FROM messages');
          await client.query('COMMIT');
          return { message: 'Database cleared successfully' };
        } catch (err) { await client.query('ROLLBACK'); throw err; }
        finally { client.release(); }
      } else { ... SELECT deleted rows with an image ...; return { deletedMessages: rows }; }
    } catch (err) { return { error: 'Failed to process delete operation' }; }
  }
  \<close>
  The wipe runs on one client session. A session sees the committed table, or, inside
  a transaction, its own view of it; COMMIT publishes the view, ROLLBACK drops it.
  Every statement can fail. A DELETE that fails has removed some prefix of the rows
  from the transaction's view when it stops (\<open>delete_fails_after = Some k\<close>); the
  other statements fail without effect. BEGIN inside an open transaction changes
  nothing, as in PostgreSQL.
\<close>

record pg_session =
  store :: database
  txn_view :: "message_row list option"

record clear_faults =
  connect_fails :: bool
  begin_fails :: bool
  delete_fails_after :: "nat option"
  commit_fails :: bool
  rollback_fails :: bool
  select_fails :: bool

definition pg_begin :: "pg_session \<Rightarrow> pg_session" where
  "pg_begin s = (case txn_view s of
                   None \<Rightarrow> s\<lparr>txn_view := Some (messages (store s))\<rparr>
                 | Some v \<Rightarrow> s)"

definition pg_delete_from_messages :: "(message_row list \<Rightarrow> message_row list) \<Rightarrow> pg_session \<Rightarrow> pg_session" where
  "pg_delete_from_messages del s = (case txn_view s of
       None \<Rightarrow> s\<lparr>store := (store s)\<lparr>messages := del (messages (store s))\<rparr>\<rparr>
     | Some v \<Rightarrow> s\<lparr>txn_view := Some (del v)\<rparr>)"

definition pg_commit :: "pg_session \<Rightarrow> pg_session" where
  "pg_commit s = (case txn_view s of
                    None \<Rightarrow> s
                  | Some v \<Rightarrow> \<lparr>store = (store s)\<lparr>messages := v\<rparr>, txn_view = None\<rparr>)"

definition pg_rollback :: "pg_session \<Rightarrow> pg_session" where
  "pg_rollback s = s\<lparr>txn_view := None\<rparr>"

datatype delete_result =
    Cleared
  | DeletedMessages "message_row list"
  | DeleteFailed

text \<open>The inner \<open>try\<close> block: the first failing statement stops it with its error.\<close>

definition clear_try :: "clear_faults \<Rightarrow> pg_session \<Rightarrow> error option \<times> pg_session" where
  "clear_try f s =
     (if begin_fails f then (Some ConnectionError, s)
      else let s1 = pg_begin s in
        (case delete_fails_after f of
           Some k \<Rightarrow> (Some ConnectionError, pg_delete_from_messages (drop k) s1)
         | None \<Rightarrow>
             let s2 = pg_delete_from_messages (\<lambda>v. []) s1 in
             if commit_fails f then (Some ConnectionError, s2)
             else (None, pg_commit s2)))"

text \<open>The \<open>catch\<close> block: ROLLBACK, then the error is thrown again.\<close>

definition clear_catch :: "clear_faults \<Rightarrow> pg_session \<Rightarrow> pg_session" where
  "clear_catch f s = (if rollback_fails f then s else pg_rollback s)"

definition handleDelete :: "bool \<Rightarrow> clear_faults \<Rightarrow> pg_session \<Rightarrow> delete_result \<times> pg_session" where
  "handleDelete clear f s =
     (if clear then
        (if connect_fails f then (DeleteFailed, s)
         else (case clear_try f s of
                 (None, s') \<Rightarrow> (Cleared, s')
               | (Some err, s') \<Rightarrow> (DeleteFailed, clear_catch f s')))
      else
        (if select_fails f then (DeleteFailed, s)
         else (DeletedMessages (sql_select_deleted_with_images (store s)), s)))"

definition no_fault :: "clear_faults \<Rightarrow> bool" where
  "no_fault f = (\<not> connect_fails f \<and> \<not> begin_fails f \<and> delete_fails_after f = None \<and>
                 \<not> commit_fails f)"

section \<open>The ephemeral media cache\<close>

text \<open>
  \<^verbatim>\<open>const mediaCache = new Map();\<close> maps a message id to the downloaded media and
  its metadata. The handler of new messages is its only writer:
  \<^verbatim>\<open>
  mediaCache.set(mek.key.id, { type: messageType, buffer, caption: ... || '',
                               mimetype: ..., imageUrl, timestamp: Date.now() });
  const now = Date.now();
  for (const [id, { timestamp }] of mediaCache) {
    if (now - timestamp > 60 * 60 * 1000) { mediaCache.delete(id); }
  }
  \<close>
  and handleDeletedMessage its only reader (\<^verbatim>\<open>mediaCache.get(id)\<close>). The clock is
  read twice, once for the entry and once for the sweep; both readings are
  arguments. No timer of the program touches the cache.
\<close>

type_synonym buffer = "char list"

record cache_entry =
  cached_type :: string
  cached_buffer :: buffer
  cached_caption :: string
  cached_mimetype :: "string option"
  cached_imageUrl :: "string option"
  timestamp :: instant

type_synonym media_cache = "string \<rightharpoonup> cache_entry"

definition cache_ttl :: int where
  "cache_ttl = 60 * 60 * 1000"

definition mediaCache_set :: "media_cache \<Rightarrow> string \<Rightarrow> cache_entry \<Rightarrow> media_cache" where
  "mediaCache_set c k e = c(k \<mapsto> e)"

definition mediaCache_get :: "media_cache \<Rightarrow> string \<Rightarrow> cache_entry option" where
  "mediaCache_get c k = c k"

text \<open>The loop over the map: an entry goes when \<open>now - timestamp > 60 * 60 * 1000\<close>.\<close>

definition evict_expired :: "instant \<Rightarrow> media_cache \<Rightarrow> media_cache" where
  "evict_expired now c =
     (\<lambda>k. case c k of
            None \<Rightarrow> None
          | Some e \<Rightarrow> if now - timestamp e > cache_ttl then None else Some e)"

text \<open>
  The put of the handler: the entry, stamped with the first clock reading, is
  stored, then the sweep runs with the second reading.
\<close>

definition cache_media ::
  "media_cache \<Rightarrow> string \<Rightarrow> cache_entry \<Rightarrow> instant \<Rightarrow> instant \<Rightarrow> media_cache" where
  "cache_media c k e t_set t_sweep =
     evict_expired t_sweep (mediaCache_set c k (e\<lparr>timestamp := t_set\<rparr>))"

text \<open>
  The specification's bound, for comparison: at time \<open>now\<close> no entry of the cache
  is older than the TTL plus \<open>slack\<close> (one sweep interval).
\<close>

definition lifetime_bounded :: "instant \<Rightarrow> instant \<Rightarrow> media_cache \<Rightarrow> bool" where
  "lifetime_bounded slack now c = (\<forall>k e. c k = Some e \<longrightarrow> now - timestamp e \<le> cache_ttl + slack)"

definition example_entry :: cache_entry where
  "example_entry =
     \<lparr>cached_type = ''imageMessage'', cached_buffer = ''JPEG'', cached_caption = ''hi'',
      cached_mimetype = Some ''image/jpeg'', cached_imageUrl = None, timestamp = 0\<rparr>"

section \<open>The content normalizer\<close>

text \<open>
  A message of the transport is an object with one content field; Baileys'
  \<open>getContentType\<close> returns the name of that field. The kinds the handler tells
  apart are constructors; \<open>OtherMessage\<close> stands for every other kind, with its
  field name. An extended text message may carry a \<open>contextInfo\<close> with the quoted
  message and the conversation the quote comes from.
\<close>

record media_info =
  caption :: "string option"
  mimetype :: "string option"

datatype message =
    Conversation string
  | ExtendedTextMessage string "context_info option"
  | ImageMessage media_info
  | VideoMessage media_info
  | AudioMessage media_info
  | EphemeralMessage message
  | ViewOnceMessageV2 message
  | OtherMessage string
and context_info =
    ContextInfo "message option" "string option"

fun getContentType :: "message \<Rightarrow> string" where
  "getContentType (Conversation t) = ''conversation''"
| "getContentType (ExtendedTextMessage t c) = ''extendedTextMessage''"
| "getContentType (ImageMessage i) = ''imageMessage''"
| "getContentType (VideoMessage i) = ''videoMessage''"
| "getContentType (AudioMessage i) = ''audioMessage''"
| "getContentType (EphemeralMessage m) = ''ephemeralMessage''"
| "getContentType (ViewOnceMessageV2 m) = ''viewOnceMessageV2''"
| "getContentType (OtherMessage tag) = tag"

text \<open>\<^verbatim>\<open>messageContent.ephemeralMessage.message\<close> and \<^verbatim>\<open>messageContent.viewOnceMessageV2.message\<close>\<close>

fun ephemeralMessage_message :: "message \<Rightarrow> message" where
  "ephemeralMessage_message (EphemeralMessage m) = m"
| "ephemeralMessage_message m = m"

fun viewOnceMessageV2_message :: "message \<Rightarrow> message" where
  "viewOnceMessageV2_message (ViewOnceMessageV2 m) = m"
| "viewOnceMessageV2_message m = m"

text \<open>
  \<^verbatim>\<open>
  let messageContent = mek.message;
  let messageType = getContentType(messageContent);
  if (messageType === 'ephemeralMessage') {
    messageContent = messageContent.ephemeralMessage.message;
    messageType = getContentType(messageContent);
  }
  if (messageType === 'viewOnceMessageV2') {
    messageContent = messageContent.viewOnceMessageV2.message;
    messageType = getContentType(messageContent);
  }
  \<close>
  Two tests in a row, each run once.
\<close>

definition unwrap_content :: "message \<Rightarrow> message" where
  "unwrap_content m =
     (let m1 = (if getContentType m = ''ephemeralMessage'' then ephemeralMessage_message m else m);
          m2 = (if getContentType m1 = ''viewOnceMessageV2'' then viewOnceMessageV2_message m1 else m1)
      in m2)"

text \<open>
  The specification's reading, for comparison: unwrap again and again until the
  content is no wrapper.
\<close>

fun innermost_content :: "message \<Rightarrow> message" where
  "innermost_content (EphemeralMessage m) = innermost_content m"
| "innermost_content (ViewOnceMessageV2 m) = innermost_content m"
| "innermost_content m = m"

fun is_wrapper :: "message \<Rightarrow> bool" where
  "is_wrapper (EphemeralMessage m) = True"
| "is_wrapper (ViewOnceMessageV2 m) = True"
| "is_wrapper m = False"

subsection \<open>A small store used in the examples\<close>

definition example_row :: message_row where
  "example_row =
     \<lparr>row_id = 1, message_id = ''M1'', sender_jid = ''a@s.whatsapp.net'',
      remote_jid = ''a@s.whatsapp.net'', message_text = ''hi'',
      message_type = ''conversation'', row_timestamp = 0, is_deleted = False,
      deleted_at = None, deleted_by = None, sri_lanka_time = 0,
      auto_reply_sent = False, image_url = None\<rparr>"

definition example_store :: database where
  "example_store = \<lparr>messages = [example_row], messages_id_seq = 1\<rparr>"

definition example_store_twice :: database where
  "example_store_twice =
     \<lparr>messages = [example_row, example_row\<lparr>row_id := 2\<rparr>], messages_id_seq = 2\<rparr>"

section \<open>Strings of the host language\<close>

text \<open>
  Strings are lists of characters. The JavaScript string methods the handlers call
  are written out: \<open>startsWith\<close>, \<open>indexOf\<close>, \<open>includes\<close>, \<open>toLowerCase\<close> (on
  the letters A to Z; other characters are kept), \<open>split('@')[0]\<close> and
  \<open>replace\<close> with a string pattern.
\<close>

definition startsWith :: "string \<Rightarrow> string \<Rightarrow> bool" where
  "startsWith s p = (take (length p) s = p)"

fun indexOf :: "string \<Rightarrow> string \<Rightarrow> nat option" where
  "indexOf [] p = (if p = [] then Some 0 else None)"
| "indexOf (c # cs) p =
     (if startsWith (c # cs) p then Some 0 else map_option Suc (indexOf cs p))"

definition includes_str :: "string \<Rightarrow> string \<Rightarrow> bool" where
  "includes_str s p = (indexOf s p \<noteq> None)"

definition toLowerCase_char :: "char \<Rightarrow> char" where
  "toLowerCase_char c =
     (if (65::nat) \<le> of_char c \<and> of_char c \<le> (90::nat) then char_of (of_char c + (32::nat)) else c)"

definition toLowerCase :: "string \<Rightarrow> string" where
  "toLowerCase s = map toLowerCase_char s"

text \<open>
  \<open>String.prototype.replace\<close> with a string pattern replaces the first occurrence
  only, and expands the replacement text first (the GetSubstitution operation of
  the language): \<open>$$\<close> stands for a dollar sign, \<open>$&\<close> for the matched text,
  \<open>$`\<close> for the text before the match and \<open>$'\<close> for the text after it. With a
  string pattern there are no captures, so any other \<open>$\<close> stands for itself.
\<close>

fun getSubstitution :: "string \<Rightarrow> string \<Rightarrow> nat \<Rightarrow> string \<Rightarrow> string" where
  "getSubstitution matched str pos [] = []"
| "getSubstitution matched str pos [c] = [c]"
| "getSubstitution matched str pos (c # d # rest) =
     (if c = CHR ''$'' then
        (if d = CHR ''$'' then CHR ''$'' # getSubstitution matched str pos rest
         else if d = CHR ''&'' then matched @ getSubstitution matched str pos rest
         else if d = CHR 0x60 then take pos str @ getSubstitution matched str pos rest
         else if d = CHR 0x27 then drop (pos + length matched) str @ getSubstitution matched str pos rest
         else c # getSubstitution matched str pos (d # rest))
      else c # getSubstitution matched str pos (d # rest))"

definition replace_str :: "string \<Rightarrow> string \<Rightarrow> string \<Rightarrow> string" where
  "replace_str s searchValue replaceValue =
     (case indexOf s searchValue of
        None \<Rightarrow> s
      | Some pos \<Rightarrow> take pos s @ getSubstitution searchValue s pos replaceValue
                     @ drop (pos + length searchValue) s)"

text \<open>
  \<^verbatim>\<open>content.replace('${pushname}', pushName).replace('${userid}', userId)
         .replace('${senderdpurl}', senderDpUrl)\<close>
\<close>

definition substitute :: "string \<Rightarrow> string \<Rightarrow> string \<Rightarrow> string \<Rightarrow> string" where
  "substitute s pushname userId senderDpUrl =
     replace_str (replace_str (replace_str s ''${pushname}'' pushname) ''${userid}'' userId)
        ''${senderdpurl}'' senderDpUrl"


text \<open>\<^verbatim>\<open>if (content) { content = content.replace(...)... }\<close>, for a field that may be absent.\<close>

definition substitute_field :: "string option \<Rightarrow> string \<Rightarrow> string \<Rightarrow> string \<Rightarrow> string option" where
  "substitute_field field pushname userId senderDpUrl =
     (case field of
        None \<Rightarrow> None
      | Some s \<Rightarrow> if s = [] then Some s else Some (substitute s pushname userId senderDpUrl))"

text \<open>\<^verbatim>\<open>x.split('@')[0]\<close> and \<^verbatim>\<open>a || b\<close> on strings (the empty string is falsy).\<close>

definition split_at_first :: "string \<Rightarrow> string" where
  "split_at_first s = takeWhile (\<lambda>c. c \<noteq> CHR ''@'') s"

definition truthy :: "string option \<Rightarrow> bool" where
  "truthy a = (case a of None \<Rightarrow> False | Some x \<Rightarrow> x \<noteq> [])"

definition or_else :: "string option \<Rightarrow> string \<Rightarrow> string" where
  "or_else a b = (case a of None \<Rightarrow> b | Some x \<Rightarrow> if x = [] then b else x)"

section \<open>Reply rules\<close>

text \<open>
  \<open>reply.json\<close> holds the rules in order. A rule has a \<open>trigger\<close>, a \<open>pattern\<close>
  (both optional) and a list of response items.
\<close>

record response_item =
  response_type :: string
  content :: "string option"
  response_caption :: "string option"
  url :: "string option"
  delay :: "nat option"

record reply_rule =
  trigger :: "string option"
  pattern :: "string option"
  response :: "response_item list"

text \<open>
  \<^verbatim>\<open>new RegExp(rule.pattern, 'i')\<close> either throws a SyntaxError or yields a regular
  expression, whose \<open>test\<close> is a predicate on strings. The engine is the
  language's; it is an argument of the model.
\<close>

type_synonym regexp_engine = "string \<Rightarrow> error + (string \<Rightarrow> bool)"

text \<open>\<^verbatim>\<open>rule.trigger && messageText.toLowerCase().includes(rule.trigger.toLowerCase())\<close>\<close>

definition trigger_includes :: "reply_rule \<Rightarrow> string \<Rightarrow> bool" where
  "trigger_includes rule messageText =
     (case trigger rule of
        None \<Rightarrow> False
      | Some t \<Rightarrow> t \<noteq> [] \<and> includes_str (toLowerCase messageText) (toLowerCase t))"

text \<open>
  \<^verbatim>\<open>
  let isMatch = false;
  if (rule.pattern) {
    try { const regex = new RegExp(rule.pattern, 'i'); isMatch = regex.test(messageText); }
    catch (err) { isMatch = rule.trigger && messageText.toLowerCase().includes(...); }
  } else { isMatch = rule.trigger && messageText.toLowerCase().includes(...); }
  \<close>
\<close>

definition isMatch :: "regexp_engine \<Rightarrow> reply_rule \<Rightarrow> string \<Rightarrow> bool" where
  "isMatch engine rule messageText =
     (case pattern rule of
        None \<Rightarrow> trigger_includes rule messageText
      | Some p \<Rightarrow>
          if p = [] then trigger_includes rule messageText
          else (case engine p of
                  Inr regex \<Rightarrow> regex messageText
                | Inl err \<Rightarrow> trigger_includes rule messageText))"

text \<open>
  A small engine for the examples: it refuses the pattern \<open>(\<close>, as every engine
  does, and reads any other pattern as plain text, matched case-insensitively.
\<close>

definition example_RegExp :: regexp_engine where
  "example_RegExp p =
     (if p = ''('' then Inl SyntaxError
      else Inr (\<lambda>t. includes_str (toLowerCase t) (toLowerCase p)))"

section \<open>The transport, the environment and the world\<close>

text \<open>
  A message of the transport comes with its key (conversation, id, the sender
  inside a group, whether the bot wrote it) and the sender's display name.
\<close>

record msg_key =
  remoteJid :: string
  key_id :: string
  participant :: "string option"
  fromMe :: bool

record web_message =
  key :: msg_key
  message :: "message option"
  pushName :: "string option"

text \<open>
  What the handlers send. The fixed texts of the program are constructors that
  carry the values interpolated into them; a payload is the content object given
  to \<open>conn.sendMessage\<close>, a send context the options that go with it (the
  triggering message quoted, the forwarded \<open>contextInfo\<close> with score 999, or, for
  the deletion alert, a quote of the stored text).
\<close>

datatype notice =
    PleaseMentionStatus
  | QuotedNotStatus
  | QuotedNotImageOrVideo
  | FailedToSaveStatusImage
  | FailedToSaveStatusVideo
  | Pong
  | BotRuntime
  | ReloadResult bool
  | OnlyOwnersReload
  | OnlyOwnersDelete
  | DatabaseCleared
  | DeletedWithImages "message_row list"
  | DeleteOperationFailed
  | MediaMessageDeleted string string
  | DeletionAlert string string instant "string option"

datatype payload =
    Text "string option"
  | Notice notice
  | Image buffer string
  | Video buffer string
  | Voice buffer
  | StatusVideo buffer string string
  | ImageByUrl string string
  | RawMedia string buffer string "string option"

datatype send_context =
    Plain
  | Quoted
  | QuotedForwarded
  | QuotedStoredText string

datatype statement =
    InsertMessage string
  | UpdateAutoReplySent string
  | UpdateDeleted string string
  | SelectMessage string

datatype event =
    SendPresenceUpdate string string
  | ReadMessages msg_key
  | SendMessage string payload send_context
  | Delay nat
  | Query statement

text \<open>
  The collaborators of one handler run, as far as the handler can observe them:
  the regular-expression engine, the outcome of the media download (\<open>None\<close> when
  \<open>withRetry(downloadMediaMessage)\<close> throws), of the image upload (\<open>uploadToImgbb\<close>
  returns null on every failure), of the profile picture lookup, of HTTP and file
  reads, of each transport call after its retries, of each SQL statement, the
  clock readings, and the serializer of message objects.
\<close>

datatype reload_outcome =
    FetchFailed
  | LoadFailed
  | Loaded "reply_rule list option"

record env =
  RegExp :: regexp_engine
  downloadMediaMessage :: "message \<Rightarrow> buffer option"
  uploadToImgbb :: "buffer \<Rightarrow> string option"
  profilePictureUrl :: "string \<Rightarrow> string option"
  axios_get :: "string \<Rightarrow> buffer option"
  readFile :: "string \<Rightarrow> buffer option"
  writeFile_ok :: bool
  transport_ok :: "event \<Rightarrow> bool"
  query_ok :: "statement \<Rightarrow> bool"
  clock_set :: instant
  clock_sweep :: instant
  clock_now :: instant
  clock_db :: instant
  JSON_stringify :: "message \<Rightarrow> string"
  reload :: reload_outcome
  faults :: clear_faults

record config =
  AUTO_TYPING :: bool
  AUTO_RECORDING :: bool
  AUTO_STATUS_SEEN :: bool
  AUTO_READ :: bool
  statusTriggers :: "string list"
  restrictedNumber :: string
  ownerNumber :: "string list"

text \<open>
  The state the handlers share: the table, the media cache, the loaded rules
  (\<open>None\<close> while \<open>replyRules\<close> has no \<open>rules\<close> field) and the log of what was
  done, in order.
\<close>

record world =
  db :: database
  mediaCache :: media_cache
  replyRules :: "reply_rule list option"
  trace :: "event list"

text \<open>
  A step either goes on with a new world or throws, leaving the world it had
  reached. The handlers' outermost \<open>catch\<close> logs the error and keeps that world.
\<close>

type_synonym outcome = "(error \<times> world) + world"

definition and_then :: "outcome \<Rightarrow> (world \<Rightarrow> outcome) \<Rightarrow> outcome" where
  "and_then r f = (case r of Inl x \<Rightarrow> Inl x | Inr w \<Rightarrow> f w)"

definition final_world :: "outcome \<Rightarrow> world" where
  "final_world r = (case r of Inl (e, w) \<Rightarrow> w | Inr w \<Rightarrow> w)"

definition emit :: "env \<Rightarrow> event \<Rightarrow> world \<Rightarrow> outcome" where
  "emit env e w =
     (if transport_ok env e then Inr (w\<lparr>trace := trace w @ [e]\<rparr>)
      else Inl (ConnectionError, w))"

text \<open>
  \<^verbatim>\<open>
  async function fetchMedia(source) {
    try {
      if (source.startsWith('http://') || source.startsWith('https://')) { ... axios.get ... }
      else { buffer = await fs.readFile(source); }
      return buffer;
    } catch (err) { return null; }
  }
  \<close>
  An absent \<open>source\<close> throws inside the \<open>try\<close>, so it yields null as well.
\<close>

definition fetchMedia :: "env \<Rightarrow> string option \<Rightarrow> buffer option" where
  "fetchMedia env source =
     (case source of
        None \<Rightarrow> None
      | Some src \<Rightarrow>
          if startsWith src ''http://'' \<or> startsWith src ''https://'' then axios_get env src
          else readFile env src)"

section \<open>Rule dispatch\<close>

text \<open>
  The statement that flags the triggering message:
  \<^verbatim>\<open>await pool.query(`UPDATE messages SET auto_reply_sent = TRUE WHERE message_id = $1`, ...)\<close>
\<close>

definition mark_auto_reply_sent :: "env \<Rightarrow> string \<Rightarrow> world \<Rightarrow> outcome" where
  "mark_auto_reply_sent env mid w =
     (if query_ok env (UpdateAutoReplySent mid)
      then Inr (w\<lparr>db := sql_update_auto_reply_sent (db w) mid,
                  trace := trace w @ [Query (UpdateAutoReplySent mid)]\<rparr>)
      else Inl (ConnectionError, w))"

text \<open>
  One response item: the delay, if the item has a non-zero one; the substitution
  into \<open>content\<close>, \<open>caption\<close> and \<open>url\<close>; then the \<open>switch\<close> on the type. A media
  item whose fetch fails is skipped; an item of any other type sends nothing.
\<close>

definition send_response ::
  "env \<Rightarrow> web_message \<Rightarrow> string \<Rightarrow> string \<Rightarrow> string \<Rightarrow> response_item \<Rightarrow> world \<Rightarrow> outcome" where
  "send_response env mek pushname userId senderDpUrl r w =
     (let w1 = (case delay r of
                  None \<Rightarrow> w
                | Some ms \<Rightarrow> if ms = 0 then w else w\<lparr>trace := trace w @ [Delay ms]\<rparr>);
          content' = substitute_field (content r) pushname userId senderDpUrl;
          caption' = substitute_field (response_caption r) pushname userId senderDpUrl;
          url' = substitute_field (url r) pushname userId senderDpUrl;
          to = remoteJid (key mek)
      in if response_type r = ''text'' then
           emit env (SendMessage to (Text content') QuotedForwarded) w1
         else if response_type r = ''image'' then
           (case fetchMedia env url' of
              None \<Rightarrow> Inr w1
            | Some imageBuffer \<Rightarrow>
                emit env (SendMessage to (Image imageBuffer (or_else caption' [])) QuotedForwarded) w1)
         else if response_type r = ''video'' then
           (case fetchMedia env url' of
              None \<Rightarrow> Inr w1
            | Some videoBuffer \<Rightarrow>
                emit env (SendMessage to (Video videoBuffer (or_else caption' [])) QuotedForwarded) w1)
         else if response_type r = ''voice'' then
           (case fetchMedia env url' of
              None \<Rightarrow> Inr w1
            | Some voiceBuffer \<Rightarrow> emit env (SendMessage to (Voice voiceBuffer) QuotedForwarded) w1)
         else Inr w1)"

text \<open>\<^verbatim>\<open>for (const response of rule.response) { ... }\<close>: in order, stopping at a throw.\<close>

fun send_responses ::
  "env \<Rightarrow> web_message \<Rightarrow> string \<Rightarrow> string \<Rightarrow> string \<Rightarrow> response_item list \<Rightarrow> world \<Rightarrow> outcome" where
  "send_responses env mek pushname userId senderDpUrl [] w = Inr w"
| "send_responses env mek pushname userId senderDpUrl (r # rs) w =
     and_then (send_response env mek pushname userId senderDpUrl r w)
       (send_responses env mek pushname userId senderDpUrl rs)"

text \<open>The body of \<open>if (isMatch) { ... break; }\<close>.\<close>

definition dispatch_rule ::
  "env \<Rightarrow> web_message \<Rightarrow> string \<Rightarrow> string \<Rightarrow> string \<Rightarrow> reply_rule \<Rightarrow> world \<Rightarrow> outcome" where
  "dispatch_rule env mek pushname userId senderDpUrl rule w =
     and_then (mark_auto_reply_sent env (key_id (key mek)) w)
       (send_responses env mek pushname userId senderDpUrl (response rule))"

text \<open>
  \<^verbatim>\<open>for (const rule of replyRules.rules) { ... if (isMatch) { ...; break; } }\<close>
\<close>

fun match_rules ::
  "env \<Rightarrow> web_message \<Rightarrow> string \<Rightarrow> string \<Rightarrow> string \<Rightarrow> string \<Rightarrow> reply_rule list \<Rightarrow> world \<Rightarrow> outcome" where
  "match_rules env mek messageText pushname userId senderDpUrl [] w = Inr w"
| "match_rules env mek messageText pushname userId senderDpUrl (rule # rules) w =
     (if isMatch (RegExp env) rule messageText
      then dispatch_rule env mek pushname userId senderDpUrl rule w
      else match_rules env mek messageText pushname userId senderDpUrl rules w)"

text \<open>
  The events a rule's responses may leave in the log: delays, and sends that quote
  the triggering message and carry the forwarded context.
\<close>

fun is_dispatch_event :: "event \<Rightarrow> bool" where
  "is_dispatch_event (SendMessage to p QuotedForwarded) = True"
| "is_dispatch_event (Delay ms) = True"
| "is_dispatch_event e = False"

subsection \<open>Values used in the examples\<close>

definition example_env :: env where
  "example_env =
     \<lparr>RegExp = example_RegExp,
      downloadMediaMessage = (\<lambda>m. Some ''JPEG''),
      uploadToImgbb = (\<lambda>b. Some ''https://i.ibb.co/x.jpg''),
      profilePictureUrl = (\<lambda>j. None),
      axios_get = (\<lambda>u. None),
      readFile = (\<lambda>f. None),
      writeFile_ok = True,
      transport_ok = (\<lambda>e. True),
      query_ok = (\<lambda>q. True),
      clock_set = 0, clock_sweep = 0, clock_now = 0, clock_db = 0,
      JSON_stringify = (\<lambda>m. ''{}''),
      reload = FetchFailed,
      faults = \<lparr>connect_fails = False, begin_fails = False, delete_fails_after = None,
                commit_fails = False, rollback_fails = False, select_fails = False\<rparr>\<rparr>"

definition example_mek :: web_message where
  "example_mek =
     \<lparr>key = \<lparr>remoteJid = ''a@s.whatsapp.net'', key_id = ''M1'', participant = None,
              fromMe = False\<rparr>,
      message = Some (Conversation ''show menu please''),
      pushName = Some ''Bob''\<rparr>"

definition example_rules :: "reply_rule list" where
  "example_rules =
     [\<lparr>trigger = Some ''menu'', pattern = None,
       response = [\<lparr>response_type = ''text'', content = Some ''Hello ${pushname}'',
                    response_caption = None, url = None, delay = Some 0\<rparr>,
                   \<lparr>response_type = ''text'', content = Some ''1. Pizza'',
                    response_caption = None, url = None, delay = Some 500\<rparr>]\<rparr>,
      \<lparr>trigger = None, pattern = Some ''show'',
       response = [\<lparr>response_type = ''text'', content = Some ''Nothing to show'',
                    response_caption = None, url = None, delay = None\<rparr>]\<rparr>]"

definition example_world :: world where
  "example_world =
     \<lparr>db = example_store, mediaCache = Map.empty, replyRules = Some example_rules, trace = []\<rparr>"



section \<open>The text envelope of a media message\<close>

text \<open>
  \<^verbatim>\<open>JSON.stringify({ caption: ... || '', mimetype: ... })\<close> writes the object with
  its two members in this order, and leaves the \<open>mimetype\<close> member out when the
  value is undefined. A string is written between double quotes, with the double
  quote, the backslash and the control characters escaped.
\<close>

definition hex_digit :: "nat \<Rightarrow> char" where
  "hex_digit n = ''0123456789abcdef'' ! n"

definition json_escape_char :: "char \<Rightarrow> string" where
  "json_escape_char c =
     (if c = CHR 0x22 then [CHR 0x5C, CHR 0x22]
      else if c = CHR 0x5C then [CHR 0x5C, CHR 0x5C]
      else if c = CHR 0x08 then [CHR 0x5C, CHR ''b'']
      else if c = CHR 0x0C then [CHR 0x5C, CHR ''f'']
      else if c = CHR 0x0A then [CHR 0x5C, CHR ''n'']
      else if c = CHR 0x0D then [CHR 0x5C, CHR ''r'']
      else if c = CHR 0x09 then [CHR 0x5C, CHR ''t'']
      else if (of_char c :: nat) < 32 then
        [CHR 0x5C, CHR ''u'', CHR ''0'', CHR ''0'',
         hex_digit (of_char c div 16), hex_digit (of_char c mod 16)]
      else [c])"

definition JSON_quote :: "string \<Rightarrow> string" where
  "JSON_quote s = CHR 0x22 # concat (map json_escape_char s) @ [CHR 0x22]"

definition JSON_stringify_envelope :: "string \<Rightarrow> string option \<Rightarrow> string" where
  "JSON_stringify_envelope cap mime =
     ''{'' @ JSON_quote ''caption'' @ '':'' @ JSON_quote cap @
     (case mime of None \<Rightarrow> [] | Some m \<Rightarrow> '','' @ JSON_quote ''mimetype'' @ '':'' @ JSON_quote m) @
     ''}''"

text \<open>
  \<^verbatim>\<open>JSON.parse(originalMessage.message_text).caption\<close>, for the documents the
  handler stores: an object with a string member \<open>caption\<close>, optionally followed
  by a string member \<open>mimetype\<close>. Any other text is answered with a SyntaxError.
  An escape \<open>\uXXXX\<close> is read when it denotes a single byte.
\<close>

definition hex_value :: "char \<Rightarrow> nat option" where
  "hex_value c =
     (let n = (of_char c :: nat)
      in if 48 \<le> n \<and> n \<le> 57 then Some (n - 48)
         else if 97 \<le> n \<and> n \<le> 102 then Some (n - 87)
         else if 65 \<le> n \<and> n \<le> 70 then Some (n - 55)
         else None)"

definition unescape_char :: "char \<Rightarrow> char option" where
  "unescape_char e =
     (if e = CHR 0x22 then Some (CHR 0x22)
      else if e = CHR 0x5C then Some (CHR 0x5C)
      else if e = CHR ''/'' then Some (CHR ''/'')
      else if e = CHR ''b'' then Some (CHR 0x08)
      else if e = CHR ''f'' then Some (CHR 0x0C)
      else if e = CHR ''n'' then Some (CHR 0x0A)
      else if e = CHR ''r'' then Some (CHR 0x0D)
      else if e = CHR ''t'' then Some (CHR 0x09)
      else None)"

definition push_char :: "char \<Rightarrow> (string \<times> string) option \<Rightarrow> (string \<times> string) option" where
  "push_char c r = (case r of None \<Rightarrow> None | Some (s, rest) \<Rightarrow> Some (c # s, rest))"

fun json_string_body :: "string \<Rightarrow> (string \<times> string) option" where
  "json_string_body [] = None"
| "json_string_body (c # cs) =
     (if c = CHR 0x22 then Some ([], cs)
      else if c = CHR 0x5C then
        (case cs of
           [] \<Rightarrow> None
         | e # cs' \<Rightarrow>
             if e = CHR ''u'' then
               (case cs' of
                  a # b # x # y # cs'' \<Rightarrow>
                    (case (hex_value a, hex_value b, hex_value x, hex_value y) of
                       (Some ha, Some hb, Some h, Some l) \<Rightarrow>
                          if ha = 0 \<and> hb = 0 then push_char (char_of (16 * h + l)) (json_string_body cs'')
                          else None
                     | _ \<Rightarrow> None)
                | _ \<Rightarrow> None)
             else (case unescape_char e of
                     None \<Rightarrow> None
                   | Some ch \<Rightarrow> push_char ch (json_string_body cs')))
      else if (of_char c :: nat) < 32 then None
      else push_char c (json_string_body cs))"

definition strip_prefix :: "string \<Rightarrow> string \<Rightarrow> string option" where
  "strip_prefix p s = (if startsWith s p then Some (drop (length p) s) else None)"

definition JSON_parse_caption :: "string \<Rightarrow> error + string" where
  "JSON_parse_caption t =
     (case strip_prefix (''{'' @ JSON_quote ''caption'' @ '':'' @ [CHR 0x22]) t of
        None \<Rightarrow> Inl SyntaxError
      | Some t1 \<Rightarrow>
          (case json_string_body t1 of
             None \<Rightarrow> Inl SyntaxError
           | Some (cap, t2) \<Rightarrow>
               if t2 = ''}'' then Inr cap
               else (case strip_prefix ('','' @ JSON_quote ''mimetype'' @ '':'' @ [CHR 0x22]) t2 of
                       None \<Rightarrow> Inl SyntaxError
                     | Some t3 \<Rightarrow>
                         (case json_string_body t3 of
                            None \<Rightarrow> Inl SyntaxError
                          | Some (m, t4) \<Rightarrow> if t4 = ''}'' then Inr cap else Inl SyntaxError))))"

section \<open>The handler of new messages\<close>

text \<open>
  The words that ask for a quoted status to be saved, when the configuration gives
  none. The last two are Sinhala words, written as their UTF-8 bytes.
\<close>

definition default_statusTriggers :: "string list" where
  "default_statusTriggers =
     [''send'', ''Send'', ''Seve'', ''Ewpm'', ''ewpn'', ''Dapan'', ''dapan'',
      ''oni'', ''Oni'', ''save'', ''Save'', ''ewanna'', ''Ewanna'', ''ewam'',
      ''Ewam'', ''sv'', ''Sv'',
      [CHR 0xE0, CHR 0xB6, CHR 0xAF, CHR 0xE0, CHR 0xB7, CHR 0x8F, CHR 0xE0, CHR 0xB6, CHR 0xB1,
       CHR 0xE0, CHR 0xB7, CHR 0x8A, CHR 0xE0, CHR 0xB6, CHR 0xB1],
      [CHR 0xE0, CHR 0xB6, CHR 0x91, CHR 0xE0, CHR 0xB7, CHR 0x80, CHR 0xE0, CHR 0xB6, CHR 0xB8,
       CHR 0xE0, CHR 0xB7, CHR 0x8A, CHR 0xE0, CHR 0xB6, CHR 0xB1]]"

definition default_profile_picture :: string where
  "default_profile_picture = ''https://i.imgur.com/default-profile.jpg''"

subsection \<open>Normalization and caching\<close>

text \<open>
  \<^verbatim>\<open>JSON.stringify({ caption: messageContent[messageType].caption || '',
                    mimetype: messageContent[messageType].mimetype })\<close>
\<close>

definition envelope :: "media_info \<Rightarrow> string" where
  "envelope i = JSON_stringify_envelope (or_else (caption i) []) (mimetype i)"

text \<open>
  The branch for image, video and audio messages. The download is the only step of
  the \<open>try\<close> block that can throw; when it does, the \<open>catch\<close> block builds the same
  envelope and nothing else happens: no upload, no cache entry.
\<close>

definition normalize_media ::
  "env \<Rightarrow> web_message \<Rightarrow> message \<Rightarrow> string \<Rightarrow> media_info \<Rightarrow> media_cache
     \<Rightarrow> string \<times> string \<times> string option \<times> media_cache" where
  "normalize_media env mek m messageType i c =
     (case downloadMediaMessage env m of
        None \<Rightarrow> (envelope i, messageType, None, c)
      | Some buf \<Rightarrow>
          let imageUrl = (if messageType = ''imageMessage'' then uploadToImgbb env buf else None)
          in (envelope i, messageType, imageUrl,
              cache_media c (key_id (key mek))
                \<lparr>cached_type = messageType, cached_buffer = buf,
                 cached_caption = or_else (caption i) [], cached_mimetype = mimetype i,
                 cached_imageUrl = imageUrl, timestamp = clock_set env\<rparr>
                (clock_set env) (clock_sweep env)))"

text \<open>
  From the raw message to the text, the content kind, the hosted URL and the
  cache: unwrap, then branch on the kind. Every kind that is neither text nor media
  (a wrapper left over included) is serialized whole.
\<close>

definition normalize ::
  "env \<Rightarrow> web_message \<Rightarrow> message \<Rightarrow> media_cache \<Rightarrow> string \<times> string \<times> string option \<times> media_cache" where
  "normalize env mek m c =
     (let messageContent = unwrap_content m;
          messageType = getContentType messageContent
      in case messageContent of
           Conversation t \<Rightarrow> (t, messageType, None, c)
         | ExtendedTextMessage t ctx \<Rightarrow> (t, messageType, None, c)
         | ImageMessage i \<Rightarrow> normalize_media env mek m messageType i c
         | VideoMessage i \<Rightarrow> normalize_media env mek m messageType i c
         | AudioMessage i \<Rightarrow> normalize_media env mek m messageType i c
         | EphemeralMessage x \<Rightarrow> (JSON_stringify env messageContent, messageType, None, c)
         | ViewOnceMessageV2 x \<Rightarrow> (JSON_stringify env messageContent, messageType, None, c)
         | OtherMessage tag \<Rightarrow> (JSON_stringify env messageContent, messageType, None, c))"

subsection \<open>Persistence\<close>

text \<open>
  The INSERT of the handler. The sender is \<open>mek.key.participant || mek.key.remoteJid\<close>,
  \<open>auto_reply_sent\<close> starts false. The statement fails when the pool cannot run it
  or when the table refuses the row.
\<close>

definition persist ::
  "env \<Rightarrow> web_message \<Rightarrow> string \<Rightarrow> string \<Rightarrow> string option \<Rightarrow> world \<Rightarrow> outcome" where
  "persist env mek messageText messageType imageUrl w =
     (let k = key mek
      in if \<not> query_ok env (InsertMessage (key_id k)) then Inl (ConnectionError, w)
         else (case sql_insert_message (db w) (key_id k)
                      (or_else (participant k) (remoteJid k)) (remoteJid k)
                      messageText messageType imageUrl (clock_now env) False (clock_db env) of
                 Inl e \<Rightarrow> Inl (e, w)
               | Inr d \<Rightarrow> Inr (w\<lparr>db := d, trace := trace w @ [Query (InsertMessage (key_id k))]\<rparr>)))"

subsection \<open>Saving a quoted status\<close>

text \<open>
  The inner \<open>try\<close> of the image and the video branch: download, write the temporary
  file, send; any throw is answered with the failure text (whose own send may
  throw to the outer handler).
\<close>

definition save_status_image :: "env \<Rightarrow> web_message \<Rightarrow> message \<Rightarrow> media_info \<Rightarrow> world \<Rightarrow> outcome" where
  "save_status_image env mek quotedMessage i w =
     (let to = remoteJid (key mek);
          failed = emit env (SendMessage to (Notice FailedToSaveStatusImage) Quoted)
      in case downloadMediaMessage env quotedMessage of
           None \<Rightarrow> failed w
         | Some buff \<Rightarrow>
             if \<not> writeFile_ok env then failed w
             else (case emit env (SendMessage to (Image buff (or_else (caption i) [])) Quoted) w of
                     Inl (e, w') \<Rightarrow> failed w'
                   | Inr w' \<Rightarrow> Inr w'))"

definition save_status_video :: "env \<Rightarrow> web_message \<Rightarrow> message \<Rightarrow> media_info \<Rightarrow> world \<Rightarrow> outcome" where
  "save_status_video env mek quotedMessage i w =
     (let to = remoteJid (key mek);
          failed = emit env (SendMessage to (Notice FailedToSaveStatusVideo) Quoted)
      in case downloadMediaMessage env quotedMessage of
           None \<Rightarrow> failed w
         | Some buff \<Rightarrow>
             if \<not> writeFile_ok env then failed w
             else (case emit env (SendMessage to
                           (StatusVideo buff (or_else (caption i) []) (key_id (key mek) @ ''.mp4''))
                           Quoted) w of
                     Inl (e, w') \<Rightarrow> failed w'
                   | Inr w' \<Rightarrow> Inr w'))"

text \<open>
  The status-save path reads the raw \<open>mek.message\<close>, not the unwrapped content.
  An extended text message without \<open>contextInfo\<close> makes the test itself throw.
\<close>

definition status_save :: "env \<Rightarrow> web_message \<Rightarrow> world \<Rightarrow> outcome" where
  "status_save env mek w =
     (let to = remoteJid (key mek)
      in case message mek of
           Some (ExtendedTextMessage t ctx) \<Rightarrow>
             (case ctx of
                None \<Rightarrow> Inl (TypeError, w)
              | Some (ContextInfo quoted origin) \<Rightarrow>
                  (case quoted of
                     None \<Rightarrow> emit env (SendMessage to (Notice PleaseMentionStatus) Quoted) w
                   | Some quotedMessage \<Rightarrow>
                       if origin \<noteq> Some ''status@broadcast''
                       then emit env (SendMessage to (Notice QuotedNotStatus) Quoted) w
                       else (case quotedMessage of
                               ImageMessage i \<Rightarrow> save_status_image env mek quotedMessage i w
                             | VideoMessage i \<Rightarrow> save_status_video env mek quotedMessage i w
                             | _ \<Rightarrow> emit env (SendMessage to (Notice QuotedNotImageOrVideo) Quoted) w)))
         | _ \<Rightarrow> emit env (SendMessage to (Notice PleaseMentionStatus) Quoted) w)"

subsection \<open>Rules and commands\<close>

text \<open>
  The rule path runs for a non-empty text that does not start with the command
  prefix, was not written by the bot and does not involve the restricted number.
  While no rule list is loaded, iterating \<open>replyRules.rules\<close> throws.
\<close>

definition rule_path :: "config \<Rightarrow> env \<Rightarrow> web_message \<Rightarrow> string \<Rightarrow> world \<Rightarrow> outcome" where
  "rule_path cfg env mek messageText w =
     (let senderJid = or_else (participant (key mek)) (remoteJid (key mek));
          pushname = or_else (pushName mek) ''Unknown'';
          userId = split_at_first senderJid;
          senderDpUrl = or_else (profilePictureUrl env senderJid) default_profile_picture
      in if messageText \<noteq> [] \<and> \<not> startsWith messageText ''.'' \<and> \<not> fromMe (key mek) \<and>
            senderJid \<noteq> restrictedNumber cfg \<and> remoteJid (key mek) \<noteq> restrictedNumber cfg
         then (case replyRules w of
                 None \<Rightarrow> Inl (TypeError, w)
               | Some rules \<Rightarrow>
                   match_rules env mek messageText pushname userId senderDpUrl rules w)
         else Inr w)"

text \<open>\<^verbatim>\<open>const [command, ...args] = messageText.split(' ');\<close>: the command and \<open>args[0]\<close>.\<close>

definition command_of :: "string \<Rightarrow> string" where
  "command_of t = takeWhile (\<lambda>c. c \<noteq> CHR '' '') t"

definition first_arg :: "string \<Rightarrow> string option" where
  "first_arg t =
     (case dropWhile (\<lambda>c. c \<noteq> CHR '' '') t of
        [] \<Rightarrow> None
      | sp # rest \<Rightarrow> Some (takeWhile (\<lambda>c. c \<noteq> CHR '' '') rest))"

text \<open>
  \<open>reloadJsonFile\<close>: fetch the document, write it, load it. A failed fetch or
  write is reported as a failure; a document that cannot be loaded leaves the rules
  as they are and is still reported as reloaded.
\<close>

definition reloadJsonFile :: "env \<Rightarrow> world \<Rightarrow> bool \<times> world" where
  "reloadJsonFile env w =
     (case reload env of
        FetchFailed \<Rightarrow> (False, w)
      | LoadFailed \<Rightarrow> (True, w)
      | Loaded rules \<Rightarrow> (True, w\<lparr>replyRules := rules\<rparr>))"

definition delete_command :: "env \<Rightarrow> web_message \<Rightarrow> string \<Rightarrow> world \<Rightarrow> outcome" where
  "delete_command env mek messageText w =
     (let to = remoteJid (key mek);
          clear = (case first_arg messageText of
                     None \<Rightarrow> False
                   | Some a \<Rightarrow> toLowerCase a = ''clear'')
      in case handleDelete clear (faults env) \<lparr>store = db w, txn_view = None\<rparr> of
           (result, s) \<Rightarrow>
             let w1 = w\<lparr>db := store s\<rparr>
             in if clear \<and> result \<noteq> DeleteFailed
                then emit env (SendMessage to (Notice DatabaseCleared) Quoted) w1
                else (case result of
                        DeletedMessages rows \<Rightarrow>
                          if \<not> clear
                          then emit env (SendMessage to (Notice (DeletedWithImages rows)) Quoted) w1
                          else emit env (SendMessage to (Notice DeleteOperationFailed) Quoted) w1
                      | _ \<Rightarrow> emit env (SendMessage to (Notice DeleteOperationFailed) Quoted) w1))"

definition command_path :: "config \<Rightarrow> env \<Rightarrow> web_message \<Rightarrow> string \<Rightarrow> world \<Rightarrow> outcome" where
  "command_path cfg env mek messageText w =
     (let to = remoteJid (key mek);
          senderJid = or_else (participant (key mek)) (remoteJid (key mek));
          owner = (split_at_first senderJid \<in> set (ownerNumber cfg));
          command = toLowerCase (command_of messageText)
      in if messageText = [] \<or> \<not> startsWith messageText ''.'' then Inr w
         else if command = ''.ping'' then emit env (SendMessage to (Notice Pong) Quoted) w
         else if command = ''.runtime'' then emit env (SendMessage to (Notice BotRuntime) Quoted) w
         else if command = ''.reload'' then
           (if owner
            then (case reloadJsonFile env w of
                    (ok, w1) \<Rightarrow> emit env (SendMessage to (Notice (ReloadResult ok)) Quoted) w1)
            else emit env (SendMessage to (Notice OnlyOwnersReload) Quoted) w)
         else if command = ''.delete'' then
           (if owner then delete_command env mek messageText w
            else emit env (SendMessage to (Notice OnlyOwnersDelete) Quoted) w)
         else Inr w)"

subsection \<open>The handler\<close>

text \<open>
  After the message is stored: the status-save path when the whole text is one of
  the trigger words (\<^verbatim>\<open>messageText && statusTriggers.includes(messageText)\<close>, which
  ends with \<open>return\<close>), otherwise the rule path followed by the command path.
\<close>

definition route :: "config \<Rightarrow> env \<Rightarrow> web_message \<Rightarrow> string \<Rightarrow> world \<Rightarrow> outcome" where
  "route cfg env mek messageText w =
     (if messageText \<noteq> [] \<and> messageText \<in> set (statusTriggers cfg) then status_save env mek w
      else and_then (rule_path cfg env mek messageText w) (command_path cfg env mek messageText))"

definition presence :: "env \<Rightarrow> bool \<Rightarrow> string \<Rightarrow> string \<Rightarrow> world \<Rightarrow> outcome" where
  "presence env enabled kind jid w =
     (if enabled then emit env (SendPresenceUpdate kind jid) w else Inr w)"

text \<open>
  The \<open>try\<close> block of the handler, for a message with content. A failed INSERT is
  logged and ends the handler; what normalization put into the cache stays.
\<close>

definition messages_upsert_body :: "config \<Rightarrow> env \<Rightarrow> web_message \<Rightarrow> message \<Rightarrow> world \<Rightarrow> outcome" where
  "messages_upsert_body cfg env mek m w =
     and_then (presence env (AUTO_TYPING cfg) ''composing'' (remoteJid (key mek)) w) (\<lambda>w1.
     and_then (presence env (AUTO_RECORDING cfg) ''recording'' (remoteJid (key mek)) w1) (\<lambda>w2.
       if remoteJid (key mek) = ''status@broadcast'' \<and> AUTO_STATUS_SEEN cfg
       then emit env (ReadMessages (key mek)) w2
       else (case normalize env mek m (mediaCache w2) of
               (messageText, messageType, imageUrl, c) \<Rightarrow>
                 (case persist env mek messageText messageType imageUrl (w2\<lparr>mediaCache := c\<rparr>) of
                    Inl (e, w3) \<Rightarrow> Inr w3
                  | Inr w3 \<Rightarrow>
                      and_then (if AUTO_READ cfg then emit env (ReadMessages (key mek)) w3 else Inr w3)
                        (route cfg env mek messageText)))))"

text \<open>
  \<^verbatim>\<open>conn.ev.on('messages.upsert', async ({ messages }) => { const mek = messages[0];
     if (!mek.message) return; try { ... } catch (err) { console.error(...) } })\<close>
  Only the first message of a batch is handled. On an empty batch the handler
  throws before its \<open>try\<close>; the world stays as it is.
\<close>

definition messages_upsert :: "config \<Rightarrow> env \<Rightarrow> web_message list \<Rightarrow> world \<Rightarrow> world" where
  "messages_upsert cfg env batch w =
     (case batch of
        [] \<Rightarrow> w
      | mek # others \<Rightarrow>
          (case message mek of
             None \<Rightarrow> w
           | Some m \<Rightarrow> final_world (messages_upsert_body cfg env mek m w)))"

section \<open>The handler of deletions\<close>

definition is_media_type :: "string \<Rightarrow> bool" where
  "is_media_type ty = (ty \<in> set [''imageMessage'', ''videoMessage'', ''audioMessage''])"

text \<open>
  The cache-hit branch: the media goes back to the deleter, by its hosted URL for an
  image that has one, from the cached bytes otherwise, followed by the alert.
\<close>

definition recover_from_cache ::
  "env \<Rightarrow> string \<Rightarrow> message_row \<Rightarrow> cache_entry \<Rightarrow> world \<Rightarrow> outcome" where
  "recover_from_cache env deleterJid originalMessage cachedMedia w =
     (let messageContent =
            (if message_type originalMessage = ''imageMessage'' \<and> truthy (image_url originalMessage)
             then ImageByUrl (or_else (image_url originalMessage) []) (cached_caption cachedMedia)
             else RawMedia (message_type originalMessage) (cached_buffer cachedMedia)
                    (cached_caption cachedMedia) (cached_mimetype cachedMedia));
          alert = DeletionAlert (sender_jid originalMessage) deleterJid (clock_now env)
                    (Some (or_else (Some (cached_caption cachedMedia)) ''No caption''))
      in and_then (emit env (SendMessage deleterJid messageContent Plain) w)
           (emit env (SendMessage deleterJid (Notice alert)
                        (QuotedStoredText (message_text originalMessage)))))"

text \<open>
  The other branch (no cache entry, or a row that is not media): the stored text
  goes back, or, for a media row, a notice built from the caption parsed out of the
  stored envelope; then the alert. A stored text that does not parse makes the
  handler throw.
\<close>

definition recover_as_text :: "env \<Rightarrow> string \<Rightarrow> message_row \<Rightarrow> world \<Rightarrow> outcome" where
  "recover_as_text env deleterJid originalMessage w =
     (let alert = DeletionAlert (sender_jid originalMessage) deleterJid (clock_now env) None;
          send_both = (\<lambda>p. and_then (emit env (SendMessage deleterJid p Plain) w)
                             (emit env (SendMessage deleterJid (Notice alert)
                                          (QuotedStoredText (message_text originalMessage)))))
      in if is_media_type (message_type originalMessage)
         then (case JSON_parse_caption (message_text originalMessage) of
                 Inl e \<Rightarrow> Inl (e, w)
               | Inr cap \<Rightarrow>
                   send_both (Notice (MediaMessageDeleted (message_type originalMessage)
                                        (or_else (Some cap) ''No caption''))))
         else send_both (Text (Some (message_text originalMessage))))"

text \<open>
  \<open>handleDeletedMessage\<close>: the deleter is \<open>participant || remoteJid\<close>; UPDATE, then
  SELECT; with no row nothing more happens; otherwise the first row returned is the
  original message and the cache is looked up under the id.
\<close>

definition handleDeletedMessage_body :: "env \<Rightarrow> msg_key \<Rightarrow> world \<Rightarrow> outcome" where
  "handleDeletedMessage_body env k w =
     (let mid = key_id k;
          deleterJid = or_else (participant k) (remoteJid k)
      in if \<not> query_ok env (UpdateDeleted deleterJid mid) then Inl (ConnectionError, w)
         else
           let w1 = w\<lparr>db := sql_update_deleted (db w) deleterJid mid (clock_db env),
                      trace := trace w @ [Query (UpdateDeleted deleterJid mid)]\<rparr>
           in if \<not> query_ok env (SelectMessage mid) then Inl (ConnectionError, w1)
              else
                let w2 = w1\<lparr>trace := trace w1 @ [Query (SelectMessage mid)]\<rparr>
                in (case sql_select_by_message_id (db w2) mid of
                      [] \<Rightarrow> Inr w2
                    | originalMessage # others \<Rightarrow>
                        (case mediaCache_get (mediaCache w2) mid of
                           None \<Rightarrow> recover_as_text env deleterJid originalMessage w2
                         | Some cachedMedia \<Rightarrow>
                             if is_media_type (message_type originalMessage)
                             then recover_from_cache env deleterJid originalMessage cachedMedia w2
                             else recover_as_text env deleterJid originalMessage w2)))"

definition handleDeletedMessage :: "env \<Rightarrow> msg_key \<Rightarrow> world \<Rightarrow> world" where
  "handleDeletedMessage env k w = final_world (handleDeletedMessage_body env k w)"


subsection \<open>A configuration for the examples\<close>

definition example_config :: config where
  "example_config =
     \<lparr>AUTO_TYPING = False, AUTO_RECORDING = False, AUTO_STATUS_SEEN = False, AUTO_READ = False,
      statusTriggers = default_statusTriggers,
      restrictedNumber = ''94789958225@s.whatsapp.net'',
      ownerNumber = [''94789958225'']\<rparr>"

section \<open>What a handler step may change\<close>

text \<open>
  \<open>extends_with P w w'\<close>: from \<open>w\<close> to \<open>w'\<close> the log grew by events that satisfy
  \<open>P\<close>, and the table, the cache and the rules are the same.
\<close>

definition extends_with :: "(event \<Rightarrow> bool) \<Rightarrow> world \<Rightarrow> world \<Rightarrow> bool" where
  "extends_with P w w' =
     (\<exists>evs. trace w' = trace w @ evs \<and> list_all P evs \<and> db w' = db w \<and>
            mediaCache w' = mediaCache w \<and> replyRules w' = replyRules w)"

text \<open>
  \<open>grows_with P w w'\<close>: from \<open>w\<close> to \<open>w'\<close> the log grew by events that satisfy
  \<open>P\<close>; the rest of the world may have changed.
\<close>

definition grows_with :: "(event \<Rightarrow> bool) \<Rightarrow> world \<Rightarrow> world \<Rightarrow> bool" where
  "grows_with P w w' = (\<exists>evs. trace w' = trace w @ evs \<and> list_all P evs)"

text \<open>The events of the status-save path: a quoted answer, one of its texts or the media.\<close>

fun is_status_save_event :: "event \<Rightarrow> bool" where
  "is_status_save_event (SendMessage to (Notice PleaseMentionStatus) Quoted) = True"
| "is_status_save_event (SendMessage to (Notice QuotedNotStatus) Quoted) = True"
| "is_status_save_event (SendMessage to (Notice QuotedNotImageOrVideo) Quoted) = True"
| "is_status_save_event (SendMessage to (Notice FailedToSaveStatusImage) Quoted) = True"
| "is_status_save_event (SendMessage to (Notice FailedToSaveStatusVideo) Quoted) = True"
| "is_status_save_event (SendMessage to (Image b c) Quoted) = True"
| "is_status_save_event (SendMessage to (StatusVideo b c f) Quoted) = True"
| "is_status_save_event e = False"

subsection \<open>A media message whose download fails\<close>

definition example_image_mek :: web_message where
  "example_image_mek =
     \<lparr>key = \<lparr>remoteJid = ''a@s.whatsapp.net'', key_id = ''M2'', participant = None,
              fromMe = False\<rparr>,
      message = Some (EphemeralMessage
                        (ImageMessage \<lparr>caption = Some ''hi'', mimetype = Some ''image/jpeg''\<rparr>)),
      pushName = Some ''Bob''\<rparr>"





section \<open>Sequences of events\<close>





section \<open>Properties of the message store\<close>

lemma seq_fresh_empty: "seq_fresh empty_database"
  by (simp add: seq_fresh_def empty_database_def)

lemma insert_accepted:
  assumes "seq_fresh d"
  shows "\<exists>d'. sql_insert_message d mid sender remote txt ty img slt ars now = Inr d'"
proof -
  have "Suc (messages_id_seq d) \<notin> row_id ` set (messages d)"
  proof
    assume "Suc (messages_id_seq d) \<in> row_id ` set (messages d)"
    then obtain r where r: "r \<in> set (messages d)" and eq: "row_id r = Suc (messages_id_seq d)"
      by auto
    from assms r have "row_id r \<le> messages_id_seq d"
      by (simp add: seq_fresh_def list_all_iff)
    with eq show False by simp
  qed
  then show ?thesis
    by (simp add: sql_insert_message_def Let_def)
qed

lemma insert_rows:
  assumes "sql_insert_message d mid sender remote txt ty img slt ars now = Inr d'"
  shows "messages d' = messages d @
           [\<lparr>row_id = Suc (messages_id_seq d), message_id = mid, sender_jid = sender,
             remote_jid = remote, message_text = txt, message_type = ty, row_timestamp = now,
             is_deleted = False, deleted_at = None, deleted_by = None,
             sri_lanka_time = slt, auto_reply_sent = ars, image_url = img\<rparr>]"
    and "messages_id_seq d' = Suc (messages_id_seq d)"
  using assms by (auto simp: sql_insert_message_def Let_def split: if_splits)

lemma insert_seq_fresh:
  assumes "seq_fresh d"
    and "sql_insert_message d mid sender remote txt ty img slt ars now = Inr d'"
  shows "seq_fresh d'"
proof -
  have "list_all (\<lambda>r. row_id r \<le> Suc (messages_id_seq d)) (messages d)"
    using assms(1) by (auto simp: seq_fresh_def list_all_iff)
  then show ?thesis
    using insert_rows [OF assms(2)] by (simp add: seq_fresh_def)
qed

lemma insert_deletion_invariant:
  assumes "deletion_invariant d"
    and "sql_insert_message d mid sender remote txt ty img slt ars now = Inr d'"
  shows "deletion_invariant d'"
  using assms(1) insert_rows(1) [OF assms(2)]
  by (simp add: deletion_invariant_def deleted_complete_def)

lemma insert_count:
  assumes "sql_insert_message d mid sender remote txt ty img slt ars now = Inr d'"
  shows "count_message_id d' k = (if k = mid then Suc (count_message_id d k) else count_message_id d k)"
  using insert_rows(1) [OF assms]
  by (simp add: count_message_id_def sql_select_by_message_id_def)

lemma update_deleted_seq_fresh: "seq_fresh d \<Longrightarrow> seq_fresh (sql_update_deleted d j mid now)"
  by (auto simp: seq_fresh_def sql_update_deleted_def list_all_iff)

lemma update_deleted_invariant:
  "deletion_invariant d \<Longrightarrow> deletion_invariant (sql_update_deleted d j mid now)"
  by (auto simp: deletion_invariant_def sql_update_deleted_def list_all_iff deleted_complete_def)

lemma update_deleted_unknown:
  assumes "mid \<notin> message_id ` set (messages d)"
  shows "sql_update_deleted d j mid now = d"
proof -
  have "map (\<lambda>r. if message_id r = mid
              then r\<lparr>is_deleted := True, deleted_at := Some now, deleted_by := Some j\<rparr>
              else r) (messages d) = messages d"
    using assms by (intro map_idI) auto
  then show ?thesis
    by (simp add: sql_update_deleted_def)
qed

lemma select_after_update_deleted:
  "sql_select_by_message_id (sql_update_deleted d j mid now) mid =
     map (\<lambda>r. r\<lparr>is_deleted := True, deleted_at := Some now, deleted_by := Some j\<rparr>)
         (sql_select_by_message_id d mid)"
proof -
  have "filter (\<lambda>r. message_id r = mid)
          (map (\<lambda>r. if message_id r = mid
                    then r\<lparr>is_deleted := True, deleted_at := Some now, deleted_by := Some j\<rparr>
                    else r) rs) =
        map (\<lambda>r. r\<lparr>is_deleted := True, deleted_at := Some now, deleted_by := Some j\<rparr>)
          (filter (\<lambda>r. message_id r = mid) rs)" for rs :: "message_row list"
    by (induction rs) auto
  then show ?thesis
    by (simp add: sql_select_by_message_id_def sql_update_deleted_def)
qed

lemma insert_member:
  assumes "sql_insert_message d mid sender remote txt ty img slt ars now = Inr d'"
  shows "mid \<in> message_id ` set (messages d')"
  using insert_rows(1) [OF assms] by simp

lemma update_auto_reply_ids:
  "map message_id (messages (sql_update_auto_reply_sent d k)) = map message_id (messages d)"
  by (simp add: sql_update_auto_reply_sent_def comp_def if_distrib cong: if_cong)

lemma update_deleted_ids:
  "map message_id (messages (sql_update_deleted d j k now)) = map message_id (messages d)"
  by (simp add: sql_update_deleted_def comp_def if_distrib cong: if_cong)

lemma clear_try_failed_store:
  assumes "clear_try f s = (Some e, s')"
  shows "store s' = store s"
  using assms
  by (auto simp: clear_try_def pg_begin_def pg_delete_from_messages_def Let_def
           split: if_splits option.splits)

lemma clear_try_done:
  assumes "clear_try f s = (None, s')"
  shows "messages (store s') = [] \<and> messages_id_seq (store s') = messages_id_seq (store s) \<and>
         txn_view s' = None"
  using assms
  by (auto simp: clear_try_def pg_begin_def pg_delete_from_messages_def pg_commit_def Let_def
           split: if_splits option.splits)

text \<open>
  The sequence stays ahead of the ids in use under every statement of the program:
  the insert, the two updates and the wipe (whether it succeeds or fails).
\<close>

lemma clearAll_store:
  "messages (store (snd (handleDelete True f s))) = [] \<and>
   messages_id_seq (store (snd (handleDelete True f s))) = messages_id_seq (store s) \<or>
   store (snd (handleDelete True f s)) = store s"
proof (cases "connect_fails f")
  case True
  then show ?thesis by (simp add: handleDelete_def)
next
  case False
  obtain e s1 where run: "clear_try f s = (e, s1)"
    by (cases "clear_try f s")
  show ?thesis
  proof (cases e)
    case None
    with run clear_try_done [of f s s1] False show ?thesis
      by (simp add: handleDelete_def)
  next
    case (Some err)
    with run clear_try_failed_store [of f s err s1] False show ?thesis
      by (simp add: handleDelete_def clear_catch_def pg_rollback_def)
  qed
qed

lemma update_auto_reply_seq_fresh: "seq_fresh d \<Longrightarrow> seq_fresh (sql_update_auto_reply_sent d mid)"
proof -
  have "list_all (\<lambda>r. row_id r \<le> n)
          (map (\<lambda>r. if message_id r = mid then r\<lparr>auto_reply_sent := True\<rparr> else r) rs)
        = list_all (\<lambda>r. row_id r \<le> n) rs" for rs :: "message_row list" and n
    by (induction rs) simp_all
  then show "seq_fresh d \<Longrightarrow> seq_fresh (sql_update_auto_reply_sent d mid)"
    by (simp add: seq_fresh_def sql_update_auto_reply_sent_def)
qed

lemma handleDelete_seq_fresh:
  assumes "seq_fresh (store s)"
  shows "seq_fresh (store (snd (handleDelete clear f s)))"
proof (cases "handleDelete clear f s")
  case (Pair r s')
  show ?thesis
  proof (cases clear)
    case False
    with Pair assms show ?thesis
      by (auto simp: handleDelete_def split: if_splits)
  next
    case True
    from clearAll_store [of f s] Pair True
    have "messages (store s') = [] \<and> messages_id_seq (store s') = messages_id_seq (store s) \<or>
          store s' = store s"
      by simp
    with Pair assms show ?thesis
      by (auto simp: seq_fresh_def)
  qed
qed

subsection \<open>Claims about the store\<close>

text \<open>
  C1 (as the code has it). Persistence is not idempotent on \<open>messageId\<close>: the table
  has no uniqueness constraint on \<open>message_id\<close> and the handler issues a plain
  INSERT. On every store whose sequence is ahead of the ids in use, an append is
  accepted whatever rows are already there (a duplicate \<open>messageId\<close> never raises),
  it adds exactly one row at the end, and the number of rows carrying that
  \<open>messageId\<close> grows by one while every other count stays.
\<close>

theorem append_adds_one_row:
  assumes "seq_fresh d"
  shows "\<exists>d'. sql_insert_message d mid sender remote txt ty img slt ars now = Inr d' \<and>
           seq_fresh d' \<and>
           length (messages d') = Suc (length (messages d)) \<and>
           butlast (messages d') = messages d \<and>
           message_id (last (messages d')) = mid \<and>
           count_message_id d' mid = Suc (count_message_id d mid) \<and>
           (\<forall>k. k \<noteq> mid \<longrightarrow> count_message_id d' k = count_message_id d k)"
proof -
  from insert_accepted [OF assms]
  obtain d' where ins: "sql_insert_message d mid sender remote txt ty img slt ars now = Inr d'"
    by blast
  have "seq_fresh d'"
    by (rule insert_seq_fresh [OF assms ins])
  moreover have "length (messages d') = Suc (length (messages d))"
    and "butlast (messages d') = messages d"
    and "message_id (last (messages d')) = mid"
    using insert_rows(1) [OF ins] by simp_all
  moreover have "count_message_id d' mid = Suc (count_message_id d mid)"
    and "\<forall>k. k \<noteq> mid \<longrightarrow> count_message_id d' k = count_message_id d k"
    using insert_count [OF ins] by simp_all
  ultimately show ?thesis
    using ins by blast
qed

text \<open>The same, run on the empty store with the id \<open>M1\<close>.\<close>

theorem append_adds_one_row_witness:
  "seq_fresh empty_database \<and>
   (\<exists>d'. sql_insert_message empty_database ''M1'' ''a@s.whatsapp.net'' ''a@s.whatsapp.net''
            ''hi'' ''conversation'' None 0 False 0 = Inr d' \<and>
          count_message_id d' ''M1'' = Suc (count_message_id empty_database ''M1''))"
  using append_adds_one_row [OF seq_fresh_empty, of "''M1''" "''a@s.whatsapp.net''"
      "''a@s.whatsapp.net''" "''hi''" "''conversation''" None 0 False 0]
    seq_fresh_empty
  by blast

text \<open>
  C1 as the specification states it fails: appending the record \<open>M1\<close> to the
  empty store gives the one-row store of the examples; appending it again is
  accepted and gives a different store, with two rows for \<open>M1\<close>.
\<close>

theorem append_twice_counterexample:
  "sql_insert_message empty_database ''M1'' ''a@s.whatsapp.net'' ''a@s.whatsapp.net''
      ''hi'' ''conversation'' None 0 False 0 = Inr example_store \<and>
   sql_insert_message example_store ''M1'' ''a@s.whatsapp.net'' ''a@s.whatsapp.net''
      ''hi'' ''conversation'' None 0 False 0 = Inr example_store_twice \<and>
   example_store_twice \<noteq> example_store \<and>
   count_message_id example_store ''M1'' = 1 \<and>
   count_message_id example_store_twice ''M1'' = 2"
  by (simp add: sql_insert_message_def empty_database_def example_store_def
        example_store_twice_def example_row_def count_message_id_def
        sql_select_by_message_id_def)

text \<open>
  C7. When the store holds a row for \<open>mid\<close> (every append leaves one, and no
  statement but the wipe removes it), the UPDATE of handleDeletedMessage followed by
  its SELECT returns at least one row, and every row returned has \<open>is_deleted\<close> set
  with \<open>deleted_at\<close> and \<open>deleted_by\<close> present; the update keeps the invariant that
  a deleted row carries both. When the store holds no row for \<open>mid\<close>, the UPDATE
  returns the store as it was and the SELECT returns nothing; the statement has no
  failing branch.
\<close>

theorem markDeleted_then_read:
  "(mid \<in> message_id ` set (messages d) \<longrightarrow>
      sql_select_by_message_id (sql_update_deleted d deleterJid mid now) mid \<noteq> [] \<and>
      list_all (\<lambda>r. is_deleted r \<and> deleted_at r = Some now \<and> deleted_by r = Some deleterJid)
        (sql_select_by_message_id (sql_update_deleted d deleterJid mid now) mid)) \<and>
   (deletion_invariant d \<longrightarrow> deletion_invariant (sql_update_deleted d deleterJid mid now)) \<and>
   (mid \<notin> message_id ` set (messages d) \<longrightarrow>
      sql_update_deleted d deleterJid mid now = d \<and>
      sql_select_by_message_id (sql_update_deleted d deleterJid mid now) mid = [])"
proof (intro conjI impI)
  assume "mid \<in> message_id ` set (messages d)"
  then have "sql_select_by_message_id d mid \<noteq> []"
    by (auto simp: sql_select_by_message_id_def filter_empty_conv)
  then show "sql_select_by_message_id (sql_update_deleted d deleterJid mid now) mid \<noteq> []"
    by (simp add: select_after_update_deleted)
next
  show "list_all (\<lambda>r. is_deleted r \<and> deleted_at r = Some now \<and> deleted_by r = Some deleterJid)
          (sql_select_by_message_id (sql_update_deleted d deleterJid mid now) mid)"
    by (simp add: select_after_update_deleted list_all_iff)
next
  assume "deletion_invariant d"
  then show "deletion_invariant (sql_update_deleted d deleterJid mid now)"
    by (rule update_deleted_invariant)
next
  assume unknown: "mid \<notin> message_id ` set (messages d)"
  then show same: "sql_update_deleted d deleterJid mid now = d"
    by (rule update_deleted_unknown)
  from unknown show "sql_select_by_message_id (sql_update_deleted d deleterJid mid now) mid = []"
    unfolding same by (auto simp: sql_select_by_message_id_def filter_empty_conv)
qed

text \<open>
  The same on the store that holds the single row \<open>M1\<close>: deleting \<open>M1\<close> marks
  it, deleting the unknown \<open>M2\<close> changes nothing.
\<close>

theorem markDeleted_then_read_witness:
  "''M1'' \<in> message_id ` set (messages example_store) \<and>
   sql_select_by_message_id (sql_update_deleted example_store ''b@s.whatsapp.net'' ''M1'' 5) ''M1''
     = [example_row\<lparr>is_deleted := True, deleted_at := Some 5,
                    deleted_by := Some ''b@s.whatsapp.net''\<rparr>] \<and>
   deletion_invariant example_store \<and>
   deletion_invariant (sql_update_deleted example_store ''b@s.whatsapp.net'' ''M1'' 5) \<and>
   ''M2'' \<notin> message_id ` set (messages example_store) \<and>
   sql_update_deleted example_store ''b@s.whatsapp.net'' ''M2'' 5 = example_store"
proof -
  have known: "''M1'' \<in> message_id ` set (messages example_store)"
    and unknown: "''M2'' \<notin> message_id ` set (messages example_store)"
    and inv: "deletion_invariant example_store"
    by (simp_all add: example_store_def example_row_def deletion_invariant_def
          deleted_complete_def)
  have read: "sql_select_by_message_id
                (sql_update_deleted example_store ''b@s.whatsapp.net'' ''M1'' 5) ''M1''
              = [example_row\<lparr>is_deleted := True, deleted_at := Some 5,
                    deleted_by := Some ''b@s.whatsapp.net''\<rparr>]"
    by (simp add: sql_select_by_message_id_def sql_update_deleted_def example_store_def
          example_row_def)
  from markDeleted_then_read [of "''M1''" example_store "''b@s.whatsapp.net''" 5] inv
  have "deletion_invariant (sql_update_deleted example_store ''b@s.whatsapp.net'' ''M1'' 5)"
    by blast
  moreover
  from markDeleted_then_read [of "''M2''" example_store "''b@s.whatsapp.net''" 5] unknown
  have "sql_update_deleted example_store ''b@s.whatsapp.net'' ''M2'' 5 = example_store"
    by blast
  ultimately show ?thesis
    using known unknown inv read by blast
qed

text \<open>
  C8. The wipe is all or nothing. Whatever statement fails (the connection, BEGIN,
  the DELETE after any number of rows, COMMIT, and also the ROLLBACK of the handler
  itself), handleDelete(true) ends in one of two ways: it reports success and the
  committed table is empty, or it reports the failure and the committed store is
  the one it started from, so its row count is unchanged. It reports success
  exactly when no statement failed. After a failure the transaction is closed by
  the ROLLBACK, unless the connection or the ROLLBACK itself failed.
\<close>

theorem clearAll_atomic:
  "(case handleDelete True f s of
      (r, s') \<Rightarrow>
        (r = Cleared \<and> messages (store s') = [] \<and> txn_view s' = None \<and> no_fault f) \<or>
        (r = DeleteFailed \<and> store s' = store s \<and>
         length (messages (store s')) = length (messages (store s)) \<and>
         (connect_fails f \<or> rollback_fails f \<or> txn_view s' = None) \<and> \<not> no_fault f))"
proof (cases "connect_fails f")
  case True
  then show ?thesis
    by (simp add: handleDelete_def no_fault_def)
next
  case False
  obtain e s1 where run: "clear_try f s = (e, s1)"
    by (cases "clear_try f s")
  show ?thesis
  proof (cases e)
    case None
    with run have "messages (store s1) = []" and "txn_view s1 = None"
      using clear_try_done by blast+
    moreover from run None have "no_fault f"
      using False
      by (auto simp: clear_try_def no_fault_def Let_def split: if_splits option.splits)
    ultimately show ?thesis
      using False run None by (simp add: handleDelete_def)
  next
    case (Some err)
    with run have same: "store s1 = store s"
      using clear_try_failed_store by blast
    have "store (clear_catch f s1) = store s1"
      and "rollback_fails f \<or> txn_view (clear_catch f s1) = None"
      by (simp_all add: clear_catch_def pg_rollback_def)
    moreover from run Some have "\<not> no_fault f"
      by (auto simp: clear_try_def no_fault_def Let_def split: if_splits option.splits)
    ultimately show ?thesis
      using False run Some same by (auto simp: handleDelete_def)
  qed
qed

text \<open>
  The wipe of the one-row store when COMMIT fails after the view was emptied and
  when the DELETE fails at once: the row is still there and the transaction is
  closed; with no failure the table is empty.
\<close>

theorem clearAll_atomic_witness:
  "handleDelete True
          \<lparr>connect_fails = False, begin_fails = False, delete_fails_after = None,
           commit_fails = True, rollback_fails = False, select_fails = False\<rparr>
          \<lparr>store = example_store, txn_view = None\<rparr>
     = (DeleteFailed, \<lparr>store = example_store, txn_view = None\<rparr>) \<and>
   handleDelete True
          \<lparr>connect_fails = False, begin_fails = False, delete_fails_after = Some 0,
           commit_fails = False, rollback_fails = False, select_fails = False\<rparr>
          \<lparr>store = example_store, txn_view = None\<rparr>
     = (DeleteFailed, \<lparr>store = example_store, txn_view = None\<rparr>) \<and>
   handleDelete True
          \<lparr>connect_fails = False, begin_fails = False, delete_fails_after = None,
           commit_fails = False, rollback_fails = False, select_fails = False\<rparr>
          \<lparr>store = example_store, txn_view = None\<rparr>
     = (Cleared, \<lparr>store = \<lparr>messages = [], messages_id_seq = 1\<rparr>, txn_view = None\<rparr>)"
  using clearAll_atomic [of
          "\<lparr>connect_fails = False, begin_fails = False, delete_fails_after = None,
            commit_fails = True, rollback_fails = False, select_fails = False\<rparr>"
          "\<lparr>store = example_store, txn_view = None\<rparr>"]
  by (simp add: handleDelete_def clear_try_def clear_catch_def pg_begin_def pg_commit_def
        pg_rollback_def pg_delete_from_messages_def example_store_def no_fault_def Let_def)

section \<open>Properties of the media cache\<close>

lemma evict_expired_fresh:
  assumes "evict_expired now c k = Some e"
  shows "c k = Some e \<and> now - timestamp e \<le> cache_ttl"
  using assms by (auto simp: evict_expired_def split: option.splits if_splits)

lemma evict_expired_old:
  assumes "c k = Some e" and "now - timestamp e > cache_ttl"
  shows "evict_expired now c k = None"
  using assms by (simp add: evict_expired_def)

text \<open>
  C3 (as the code has it). The only eviction is the sweep inside a put. Right
  after a put whose sweep read the clock at \<open>t_sweep\<close>, every entry of the cache
  has age at most the TTL at \<open>t_sweep\<close>; an entry under another key whose age
  exceeded the TTL at \<open>t_sweep\<close> is absent for the next get; an entry that is not
  older than the TTL at \<open>t_sweep\<close> is kept and returned unchanged. A get is a plain
  lookup: it reads no clock.
\<close>

theorem put_sweeps_expired:
  "(\<forall>k' e'. mediaCache_get (cache_media c k e t_set t_sweep) k' = Some e' \<longrightarrow>
       t_sweep - timestamp e' \<le> cache_ttl) \<and>
   (\<forall>k' e'. k' \<noteq> k \<and> c k' = Some e' \<and> t_sweep - timestamp e' > cache_ttl \<longrightarrow>
       mediaCache_get (cache_media c k e t_set t_sweep) k' = None) \<and>
   (\<forall>k' e'. k' \<noteq> k \<and> c k' = Some e' \<and> t_sweep - timestamp e' \<le> cache_ttl \<longrightarrow>
       mediaCache_get (cache_media c k e t_set t_sweep) k' = Some e') \<and>
   (t_sweep - t_set \<le> cache_ttl \<longrightarrow>
       mediaCache_get (cache_media c k e t_set t_sweep) k = Some (e\<lparr>timestamp := t_set\<rparr>))"
proof (intro conjI allI impI)
  fix k' e'
  assume "mediaCache_get (cache_media c k e t_set t_sweep) k' = Some e'"
  then show "t_sweep - timestamp e' \<le> cache_ttl"
    using evict_expired_fresh [of t_sweep _ k' e'] by (simp add: mediaCache_get_def cache_media_def)
next
  fix k' e'
  assume "k' \<noteq> k \<and> c k' = Some e' \<and> t_sweep - timestamp e' > cache_ttl"
  then show "mediaCache_get (cache_media c k e t_set t_sweep) k' = None"
    by (simp add: mediaCache_get_def cache_media_def mediaCache_set_def evict_expired_def)
next
  fix k' e'
  assume "k' \<noteq> k \<and> c k' = Some e' \<and> t_sweep - timestamp e' \<le> cache_ttl"
  then show "mediaCache_get (cache_media c k e t_set t_sweep) k' = Some e'"
    by (simp add: mediaCache_get_def cache_media_def mediaCache_set_def evict_expired_def)
next
  assume "t_sweep - t_set \<le> cache_ttl"
  then show "mediaCache_get (cache_media c k e t_set t_sweep) k = Some (e\<lparr>timestamp := t_set\<rparr>)"
    by (simp add: mediaCache_get_def cache_media_def mediaCache_set_def evict_expired_def)
qed

text \<open>
  An image cached at time 0 under \<open>M1\<close>; two hours later a video is cached under
  \<open>M2\<close>: the sweep of that put removes \<open>M1\<close> and keeps \<open>M2\<close>.
\<close>

theorem put_sweeps_expired_witness:
  "mediaCache_get (cache_media (cache_media Map.empty ''M1'' example_entry 0 0)
       ''M2'' example_entry 7200000 7200001) ''M1'' = None \<and>
   mediaCache_get (cache_media (cache_media Map.empty ''M1'' example_entry 0 0)
       ''M2'' example_entry 7200000 7200001) ''M2'' = Some (example_entry\<lparr>timestamp := 7200000\<rparr>)"
proof -
  let ?c = "cache_media Map.empty ''M1'' example_entry 0 0"
  have old: "?c ''M1'' = Some example_entry"
    by (simp add: cache_media_def mediaCache_set_def evict_expired_def example_entry_def
          cache_ttl_def)
  have "''M1'' \<noteq> ''M2'' \<and> ?c ''M1'' = Some example_entry \<and>
        7200001 - timestamp example_entry > cache_ttl"
    using old by (simp add: example_entry_def cache_ttl_def)
  moreover have "(7200001::int) - 7200000 \<le> cache_ttl"
    by (simp add: cache_ttl_def)
  ultimately show ?thesis
    using put_sweeps_expired [of ?c "''M2''" example_entry 7200000 7200001]
    by (elim conjE allE [of _ "''M1''"] allE [of _ example_entry]) simp
qed

text \<open>
  C3 as the specification states it fails. An image is cached at time 0 (its put ran
  the sweep, at time 0) and no other media message follows. The entry is still
  returned by a get, at whatever time the get runs: at 7500001 ms its age exceeds
  the TTL of 3600000 ms plus a sweep interval as long as the TTL plus five minutes.
\<close>

theorem cache_entry_outlives_ttl_counterexample:
  "mediaCache_get (cache_media Map.empty ''M1'' example_entry 0 0) ''M1'' = Some example_entry \<and>
   7500001 - timestamp example_entry > cache_ttl + cache_ttl + 300000 \<and>
   \<not> lifetime_bounded (cache_ttl + 300000) 7500001 (cache_media Map.empty ''M1'' example_entry 0 0)"
proof -
  have got: "mediaCache_get (cache_media Map.empty ''M1'' example_entry 0 0) ''M1'' = Some example_entry"
    by (simp add: mediaCache_get_def cache_media_def mediaCache_set_def evict_expired_def
          example_entry_def cache_ttl_def)
  have age: "7500001 - timestamp example_entry > cache_ttl + cache_ttl + 300000"
    by (simp add: example_entry_def cache_ttl_def)
  have "\<not> lifetime_bounded (cache_ttl + 300000) 7500001
            (cache_media Map.empty ''M1'' example_entry 0 0)"
  proof
    assume "lifetime_bounded (cache_ttl + 300000) 7500001
              (cache_media Map.empty ''M1'' example_entry 0 0)"
    with got have "7500001 - timestamp example_entry \<le> cache_ttl + (cache_ttl + 300000)"
      unfolding lifetime_bounded_def mediaCache_get_def by blast
    with age show False by simp
  qed
  with got age show ?thesis by blast
qed

text \<open>
  A stale cache entry is served. An image arrives at time 0 and is cached; 7500001
  ms later, with no media message in between, its sender deletes it: the handler
  finds the entry, more than two hours old, and sends the image back by its hosted
  URL.
\<close>

lemma stale_entry_served_on_deletion:
  "trace (handleDeletedMessage (example_env\<lparr>clock_now := 7500001, clock_db := 7500001\<rparr>)
            (key example_image_mek)
            (messages_upsert example_config example_env [example_image_mek] example_world))
     = [Query (InsertMessage ''M2''),
        Query (UpdateDeleted ''a@s.whatsapp.net'' ''M2''),
        Query (SelectMessage ''M2''),
        SendMessage ''a@s.whatsapp.net'' (ImageByUrl ''https://i.ibb.co/x.jpg'' ''hi'') Plain,
        SendMessage ''a@s.whatsapp.net''
          (Notice (DeletionAlert ''a@s.whatsapp.net'' ''a@s.whatsapp.net'' 7500001 (Some ''hi'')))
          (QuotedStoredText (envelope \<lparr>caption = Some ''hi'', mimetype = Some ''image/jpeg''\<rparr>))]"
  by code_simp

section \<open>Properties of the normalizer\<close>

text \<open>
  C4 (as the code has it). The normalizer removes at most one ephemeral wrapper and
  then at most one view-once wrapper, in this order. For a content \<open>m\<close> that is no
  wrapper, \<open>m\<close> itself, \<open>m\<close> in an ephemeral wrapper, \<open>m\<close> in a view-once wrapper
  and \<open>m\<close> in a view-once wrapper inside an ephemeral wrapper all normalize to
  \<open>m\<close>, the innermost content, and the content kind is recomputed from it.
\<close>

theorem unwrap_one_level_each:
  assumes "\<not> is_wrapper m"
  shows "unwrap_content m = m \<and>
         unwrap_content (EphemeralMessage m) = m \<and>
         unwrap_content (ViewOnceMessageV2 m) = m \<and>
         unwrap_content (EphemeralMessage (ViewOnceMessageV2 m)) = m \<and>
         innermost_content (EphemeralMessage (ViewOnceMessageV2 m)) = m \<and>
         getContentType (unwrap_content (EphemeralMessage (ViewOnceMessageV2 m))) = getContentType m"
  by (insert assms, cases m, simp_all add: unwrap_content_def Let_def)

theorem unwrap_one_level_each_witness:
  "\<not> is_wrapper (ImageMessage \<lparr>caption = Some ''hi'', mimetype = Some ''image/jpeg''\<rparr>) \<and>
   unwrap_content (EphemeralMessage (ViewOnceMessageV2
       (ImageMessage \<lparr>caption = Some ''hi'', mimetype = Some ''image/jpeg''\<rparr>)))
     = ImageMessage \<lparr>caption = Some ''hi'', mimetype = Some ''image/jpeg''\<rparr>"
  using unwrap_one_level_each
          [of "ImageMessage \<lparr>caption = Some ''hi'', mimetype = Some ''image/jpeg''\<rparr>"]
  by simp

text \<open>
  C4 as the specification states it fails: an ephemeral wrapper inside a view-once
  wrapper, and an ephemeral wrapper inside an ephemeral wrapper, both around the
  text \<open>hi\<close>, keep the content kind \<open>ephemeralMessage\<close>, while the innermost content
  is a conversation.
\<close>

theorem unwrap_nested_counterexample:
  "getContentType (unwrap_content (ViewOnceMessageV2 (EphemeralMessage (Conversation ''hi''))))
     = ''ephemeralMessage'' \<and>
   getContentType (unwrap_content (EphemeralMessage (EphemeralMessage (Conversation ''hi''))))
     = ''ephemeralMessage'' \<and>
   getContentType (innermost_content (ViewOnceMessageV2 (EphemeralMessage (Conversation ''hi''))))
     = ''conversation'' \<and>
   getContentType (innermost_content (EphemeralMessage (EphemeralMessage (Conversation ''hi''))))
     = ''conversation''"
  by (simp add: unwrap_content_def Let_def)

section \<open>Properties of the string functions\<close>

lemma indexOf_Some:
  "indexOf s p = Some i \<Longrightarrow> i + length p \<le> length s \<and> take (length p) (drop i s) = p"
proof (induction s arbitrary: i)
  case Nil
  then show ?case by (simp split: if_splits)
next
  case (Cons c cs)
  show ?case
  proof (cases "startsWith (c # cs) p")
    case True
    with Cons.prems have "i = 0" by simp
    moreover from True have "take (length p) (c # cs) = p"
      by (simp add: startsWith_def)
    moreover from this have "length p \<le> length (c # cs)"
      by (metis length_take min.cobounded1)
    ultimately show ?thesis by simp
  next
    case False
    with Cons.prems obtain j where j: "indexOf cs p = Some j" and i: "i = Suc j"
      by auto
    from Cons.IH [OF j] i show ?thesis by simp
  qed
qed

lemma indexOf_None:
  "indexOf s p = None \<Longrightarrow> s \<noteq> a @ p @ b"
proof (induction s arbitrary: a)
  case Nil
  then show ?case by (auto split: if_splits)
next
  case (Cons c cs)
  from Cons.prems have ns: "\<not> startsWith (c # cs) p" and rest: "indexOf cs p = None"
    by (auto split: if_splits)
  show ?case
  proof (cases a)
    case Nil
    with ns show ?thesis by (auto simp: startsWith_def)
  next
    case (Cons x a')
    with Cons.IH [OF rest, of a'] show ?thesis by auto
  qed
qed

lemma includes_str_iff: "includes_str s p = (\<exists>a b. s = a @ p @ b)"
proof
  assume "includes_str s p"
  then obtain i where i: "indexOf s p = Some i"
    by (auto simp: includes_str_def)
  from indexOf_Some [OF i] have "s = take i s @ p @ drop (i + length p) s"
    by (metis append_take_drop_id drop_drop add.commute)
  then show "\<exists>a b. s = a @ p @ b" by blast
next
  assume "\<exists>a b. s = a @ p @ b"
  then show "includes_str s p"
    using indexOf_None [of s p] by (auto simp: includes_str_def)
qed

lemma getSubstitution_plain:
  "CHR ''$'' \<notin> set r \<Longrightarrow> getSubstitution m s pos r = r"
  by (induction m s pos r rule: getSubstitution.induct) auto

lemma replace_str_absent: "indexOf s p = None \<Longrightarrow> replace_str s p r = s"
  by (simp add: replace_str_def)

lemma substitute_no_placeholder:
  assumes "indexOf s ''${pushname}'' = None" and "indexOf s ''${userid}'' = None"
    and "indexOf s ''${senderdpurl}'' = None"
  shows "substitute s pushname userId senderDpUrl = s"
  using assms by (simp add: substitute_def replace_str_absent)

text \<open>
  C5, the defect. The replacement text goes through the language's expansion of
  \<open>$\<close> patterns, so a display name is not inserted literally when it contains
  one: the name \<open>Ca$$h\<close> arrives as \<open>Ca$h\<close>, and the name \<open>$&\<close> arrives as the
  placeholder itself. The three replacements are chained, so a display name that
  contains the text of a later placeholder has that text replaced instead of the
  template's own placeholder.
\<close>

theorem template_dollar_not_literal:
  "substitute ''Hi ${pushname}, id ${userid}, dp ${senderdpurl}'' ''Ca$$h'' ''9477'' ''http://x/y.jpg''
     = ''Hi Ca$h, id 9477, dp http://x/y.jpg'' \<and>
   substitute ''Hi ${pushname}, id ${userid}, dp ${senderdpurl}'' ''$&'' ''9477'' ''http://x/y.jpg''
     = ''Hi ${pushname}, id 9477, dp http://x/y.jpg'' \<and>
   substitute ''Hi ${pushname}, id ${userid}, dp ${senderdpurl}'' ''${userid}'' ''9477'' ''http://x/y.jpg''
     = ''Hi 9477, id ${userid}, dp http://x/y.jpg''"
  by (simp add: substitute_def replace_str_def startsWith_def)

section \<open>Properties of rule matching\<close>

text \<open>
  C6. A pattern that is present (a non-empty string, the test \<open>if (rule.pattern)\<close>)
  decides alone when it compiles: the result is the regular expression's test,
  whatever the trigger is, so a compiled pattern that does not match gives no
  match. Only when the pattern does not compile is the result the case-insensitive
  substring test on the trigger (no match when the rule has no trigger). The
  evaluation has no failing branch: the SyntaxError of the engine is consumed.
\<close>

theorem pattern_authoritative:
  "(pattern rule = Some p \<and> p \<noteq> [] \<and> engine p = Inr regex \<longrightarrow>
      isMatch engine rule t = regex t) \<and>
   (pattern rule = Some p \<and> p \<noteq> [] \<and> engine p = Inr regex \<and> \<not> regex t \<longrightarrow>
      \<not> isMatch engine rule t) \<and>
   (pattern rule = Some p \<and> p \<noteq> [] \<and> engine p = Inl err \<longrightarrow>
      isMatch engine rule t =
        (\<exists>tr. trigger rule = Some tr \<and> tr \<noteq> [] \<and>
              includes_str (toLowerCase t) (toLowerCase tr)))"
  by (auto simp: isMatch_def trigger_includes_def split: option.splits)

text \<open>
  A rule with the pattern \<open>hello\<close> and the trigger \<open>menu\<close> does not match
  \<open>show MENU please\<close>; with the pattern \<open>(\<close>, which does not compile, it does.
\<close>

theorem pattern_authoritative_witness:
  "\<not> isMatch example_RegExp
       \<lparr>trigger = Some ''menu'', pattern = Some ''hello'', response = []\<rparr> ''show MENU please'' \<and>
   isMatch example_RegExp
       \<lparr>trigger = Some ''menu'', pattern = Some ''('', response = []\<rparr> ''show MENU please''"
proof -
  have a: "\<not> (\<lambda>t. includes_str (toLowerCase t) (toLowerCase ''hello'')) ''show MENU please''"
    by code_simp
  have b: "includes_str (toLowerCase ''show MENU please'') (toLowerCase ''menu'')"
    by code_simp
  have c: "example_RegExp ''hello'' = Inr (\<lambda>t. includes_str (toLowerCase t) (toLowerCase ''hello''))"
    and d: "example_RegExp ''('' = Inl SyntaxError"
    by (simp_all add: example_RegExp_def)
  from pattern_authoritative
         [of "\<lparr>trigger = Some ''menu'', pattern = Some ''hello'', response = []\<rparr>" "''hello''"
             example_RegExp "\<lambda>t. includes_str (toLowerCase t) (toLowerCase ''hello'')"
             "''show MENU please''"]
       a c
  have "\<not> isMatch example_RegExp
           \<lparr>trigger = Some ''menu'', pattern = Some ''hello'', response = []\<rparr> ''show MENU please''"
    by simp
  moreover
  from pattern_authoritative
         [of "\<lparr>trigger = Some ''menu'', pattern = Some ''('', response = []\<rparr>" "''(''"
             example_RegExp _ "''show MENU please''" SyntaxError]
       b d
  have "isMatch example_RegExp
           \<lparr>trigger = Some ''menu'', pattern = Some ''('', response = []\<rparr> ''show MENU please''"
    by simp
  ultimately show ?thesis by simp
qed

section \<open>Properties of rule dispatch\<close>

lemma emit_trace:
  "\<exists>evs. trace (final_world (emit env e w)) = trace w @ evs \<and> list_all is_dispatch_event evs \<and>
         db (final_world (emit env e w)) = db w"
  if "is_dispatch_event e"
  using that by (auto simp: emit_def final_world_def)

lemma send_response_trace:
  "\<exists>evs. trace (final_world (send_response env mek p u d r w)) = trace w @ evs \<and>
         list_all is_dispatch_event evs \<and>
         db (final_world (send_response env mek p u d r w)) = db w"
proof -
  define w1 where "w1 = (case delay r of
                  None \<Rightarrow> w
                | Some ms \<Rightarrow> if ms = 0 then w else w\<lparr>trace := trace w @ [Delay ms]\<rparr>)"
  have w1: "\<exists>evs. trace w1 = trace w @ evs \<and> list_all is_dispatch_event evs \<and> db w1 = db w"
    by (auto simp: w1_def split: option.splits)
  have step: "\<exists>evs. trace (final_world (emit env e w1)) = trace w @ evs \<and>
                    list_all is_dispatch_event evs \<and> db (final_world (emit env e w1)) = db w"
    if "is_dispatch_event e" for e
  proof -
    from w1 obtain evs where a: "trace w1 = trace w @ evs" "list_all is_dispatch_event evs" "db w1 = db w"
      by blast
    from emit_trace [OF that, of env w1] obtain evs' where
      b: "trace (final_world (emit env e w1)) = trace w1 @ evs'" "list_all is_dispatch_event evs'"
         "db (final_world (emit env e w1)) = db w1"
      by blast
    from a b have "trace (final_world (emit env e w1)) = trace w @ (evs @ evs')"
      and "list_all is_dispatch_event (evs @ evs')"
      and "db (final_world (emit env e w1)) = db w"
      by simp_all
    then show ?thesis by blast
  qed
  have stay: "\<exists>evs. trace (final_world (Inr w1)) = trace w @ evs \<and>
                    list_all is_dispatch_event evs \<and> db (final_world (Inr w1)) = db w"
    using w1 by (simp add: final_world_def)
  show ?thesis
    unfolding send_response_def Let_def w1_def [symmetric]
    using step stay by (auto split: option.splits)
qed

lemma send_responses_trace:
  "\<exists>evs. trace (final_world (send_responses env mek p u d rs w)) = trace w @ evs \<and>
         list_all is_dispatch_event evs \<and>
         db (final_world (send_responses env mek p u d rs w)) = db w"
proof (induction rs arbitrary: w)
  case Nil
  show ?case by (simp add: final_world_def)
next
  case (Cons r rs)
  from send_response_trace [of env mek p u d r w] obtain evs where
    first: "trace (final_world (send_response env mek p u d r w)) = trace w @ evs"
      "list_all is_dispatch_event evs"
      "db (final_world (send_response env mek p u d r w)) = db w"
    by blast
  show ?case
  proof (cases "send_response env mek p u d r w")
    case (Inl x)
    with first show ?thesis
      by (auto simp: and_then_def)
  next
    case (Inr w')
    with first have w': "trace w' = trace w @ evs" "db w' = db w"
      by (simp_all add: final_world_def)
    from Cons.IH [of w'] obtain evs' where
      rest: "trace (final_world (send_responses env mek p u d rs w')) = trace w' @ evs'"
        "list_all is_dispatch_event evs'"
        "db (final_world (send_responses env mek p u d rs w')) = db w'"
      by blast
    from w' rest first(2)
    have "trace (final_world (send_responses env mek p u d rs w')) = trace w @ (evs @ evs')"
      and "list_all is_dispatch_event (evs @ evs')"
      and "db (final_world (send_responses env mek p u d rs w')) = db w"
      by simp_all
    with Inr show ?thesis
      by (auto simp: and_then_def)
  qed
qed

lemma match_rules_first:
  assumes "list_all (\<lambda>x. \<not> isMatch (RegExp env) x t) pre" and "isMatch (RegExp env) r t"
  shows "match_rules env mek t p u d (pre @ r # post) w = dispatch_rule env mek p u d r w"
  using assms by (induction pre) simp_all

lemma match_rules_none:
  assumes "list_all (\<lambda>x. \<not> isMatch (RegExp env) x t) rules"
  shows "match_rules env mek t p u d rules w = Inr w"
  using assms by (induction rules) simp_all

lemma dispatch_rule_marked:
  assumes "query_ok env (UpdateAutoReplySent (key_id (key mek)))"
  shows "\<exists>evs. trace (final_world (dispatch_rule env mek p u d r w))
               = trace w @ Query (UpdateAutoReplySent (key_id (key mek))) # evs \<and>
              list_all is_dispatch_event evs \<and>
              db (final_world (dispatch_rule env mek p u d r w))
               = sql_update_auto_reply_sent (db w) (key_id (key mek))"
proof -
  let ?mid = "key_id (key mek)"
  let ?w1 = "w\<lparr>db := sql_update_auto_reply_sent (db w) ?mid,
               trace := trace w @ [Query (UpdateAutoReplySent ?mid)]\<rparr>"
  have run: "dispatch_rule env mek p u d r w = send_responses env mek p u d (response r) ?w1"
    using assms by (simp add: dispatch_rule_def mark_auto_reply_sent_def and_then_def)
  from send_responses_trace [of env mek p u d "response r" ?w1] obtain evs where
    "trace (final_world (send_responses env mek p u d (response r) ?w1)) = trace ?w1 @ evs"
    "list_all is_dispatch_event evs"
    "db (final_world (send_responses env mek p u d (response r) ?w1)) = db ?w1"
    by blast
  with run show ?thesis by simp
qed

lemma dispatch_rule_refused:
  assumes "\<not> query_ok env (UpdateAutoReplySent (key_id (key mek)))"
  shows "dispatch_rule env mek p u d r w = Inl (ConnectionError, w)"
  using assms by (simp add: dispatch_rule_def mark_auto_reply_sent_def and_then_def)

lemma select_after_auto_reply:
  "list_all auto_reply_sent (sql_select_by_message_id (sql_update_auto_reply_sent d mid) mid)"
proof -
  have "list_all auto_reply_sent
          (filter (\<lambda>r. message_id r = mid)
             (map (\<lambda>r. if message_id r = mid then r\<lparr>auto_reply_sent := True\<rparr> else r) rs))"
    for rs :: "message_row list"
    by (induction rs) simp_all
  then show ?thesis
    by (simp add: sql_select_by_message_id_def sql_update_auto_reply_sent_def)
qed

lemma no_mark_among_dispatch_events:
  "list_all is_dispatch_event evs \<Longrightarrow> filter (\<lambda>e. e = Query q) evs = []"
  by (induction evs) auto

text \<open>
  C2. Let \<open>r\<close> be the first rule of the list that matches the text: the rules
  before it do not match, the rules after it are arbitrary. Then the loop does
  exactly what dispatching \<open>r\<close> alone does, so no response of a later rule is sent.
  When the store runs the UPDATE, the log grows by that UPDATE first, followed only
  by the delays and sends of \<open>r\<close>'s items; the UPDATE occurs once among the new
  events, and afterwards every row of the triggering message has \<open>auto_reply_sent\<close>
  set. When the store refuses the UPDATE, the handler throws before anything is
  sent.
\<close>

theorem first_match_wins:
  assumes "rules = pre @ r # post"
    and "list_all (\<lambda>x. \<not> isMatch (RegExp env) x t) pre"
    and "isMatch (RegExp env) r t"
  shows "match_rules env mek t p u d rules w = dispatch_rule env mek p u d r w \<and>
         (query_ok env (UpdateAutoReplySent (key_id (key mek))) \<longrightarrow>
            (\<exists>evs. trace (final_world (match_rules env mek t p u d rules w))
                     = trace w @ Query (UpdateAutoReplySent (key_id (key mek))) # evs \<and>
                   list_all is_dispatch_event evs \<and>
                   length (filter (\<lambda>e. e = Query (UpdateAutoReplySent (key_id (key mek))))
                             (Query (UpdateAutoReplySent (key_id (key mek))) # evs)) = 1) \<and>
            list_all auto_reply_sent
              (sql_select_by_message_id (db (final_world (match_rules env mek t p u d rules w)))
                 (key_id (key mek)))) \<and>
         (\<not> query_ok env (UpdateAutoReplySent (key_id (key mek))) \<longrightarrow>
            match_rules env mek t p u d rules w = Inl (ConnectionError, w))"
proof -
  have same: "match_rules env mek t p u d rules w = dispatch_rule env mek p u d r w"
    unfolding assms(1) by (rule match_rules_first [OF assms(2,3)])
  show ?thesis
  proof (cases "query_ok env (UpdateAutoReplySent (key_id (key mek)))")
    case True
    from dispatch_rule_marked [OF True, of p u d r w] obtain evs where
      evs: "trace (final_world (dispatch_rule env mek p u d r w))
              = trace w @ Query (UpdateAutoReplySent (key_id (key mek))) # evs"
        "list_all is_dispatch_event evs"
        "db (final_world (dispatch_rule env mek p u d r w))
              = sql_update_auto_reply_sent (db w) (key_id (key mek))"
      by blast
    from evs(2) have once:
      "length (filter (\<lambda>e. e = Query (UpdateAutoReplySent (key_id (key mek))))
                 (Query (UpdateAutoReplySent (key_id (key mek))) # evs)) = 1"
      by (simp add: no_mark_among_dispatch_events)
    from evs(3) have flag:
      "list_all auto_reply_sent
         (sql_select_by_message_id (db (final_world (dispatch_rule env mek p u d r w)))
            (key_id (key mek)))"
      by (simp add: select_after_auto_reply)
    from same True evs(1,2) once flag show ?thesis
      by auto
  next
    case False
    with same dispatch_rule_refused [OF False, of p u d r w] show ?thesis
      by simp
  qed
qed

text \<open>
  Two rules that both match \<open>show menu please\<close>: the responses of the first are
  sent, after the UPDATE, and nothing of the second.
\<close>

theorem first_match_wins_witness:
  "isMatch (RegExp example_env) (example_rules ! 0) ''show menu please'' \<and>
   isMatch (RegExp example_env) (example_rules ! 1) ''show menu please'' \<and>
   trace (final_world (match_rules example_env example_mek ''show menu please''
            ''Bob'' ''a'' ''https://i.imgur.com/default-profile.jpg'' example_rules example_world))
     = [Query (UpdateAutoReplySent ''M1''),
        SendMessage ''a@s.whatsapp.net'' (Text (Some ''Hello Bob'')) QuotedForwarded,
        Delay 500,
        SendMessage ''a@s.whatsapp.net'' (Text (Some ''1. Pizza'')) QuotedForwarded]"
proof -
  have m0: "isMatch (RegExp example_env) (example_rules ! 0) ''show menu please''"
    and m1: "isMatch (RegExp example_env) (example_rules ! 1) ''show menu please''"
    by code_simp+
  have split: "example_rules = [] @ (example_rules ! 0) # [example_rules ! 1]"
    by (simp add: example_rules_def)
  have run: "trace (final_world (dispatch_rule example_env example_mek
            ''Bob'' ''a'' ''https://i.imgur.com/default-profile.jpg'' (example_rules ! 0) example_world))
     = [Query (UpdateAutoReplySent ''M1''),
        SendMessage ''a@s.whatsapp.net'' (Text (Some ''Hello Bob'')) QuotedForwarded,
        Delay 500,
        SendMessage ''a@s.whatsapp.net'' (Text (Some ''1. Pizza'')) QuotedForwarded]"
    by (simp add: example_rules_def example_env_def example_mek_def example_world_def
          dispatch_rule_def mark_auto_reply_sent_def and_then_def send_response_def
          emit_def final_world_def substitute_field_def substitute_def replace_str_def
          startsWith_def Let_def)
  from first_match_wins [OF split _ m0, of example_mek "''Bob''" "''a''"
         "''https://i.imgur.com/default-profile.jpg''" example_world]
  have "match_rules example_env example_mek ''show menu please''
            ''Bob'' ''a'' ''https://i.imgur.com/default-profile.jpg'' example_rules example_world
        = dispatch_rule example_env example_mek
            ''Bob'' ''a'' ''https://i.imgur.com/default-profile.jpg'' (example_rules ! 0) example_world"
    by simp
  with run m0 m1 show ?thesis by simp
qed

section \<open>Properties of the text envelope\<close>




lemma JSON_quote_caption: "JSON_quote ''caption'' = CHR 0x22 # ''caption'' @ [CHR 0x22]"
  and JSON_quote_mimetype: "JSON_quote ''mimetype'' = CHR 0x22 # ''mimetype'' @ [CHR 0x22]"
  by (simp_all add: JSON_quote_def json_escape_char_def)



section \<open>Frame properties of the handler steps\<close>

lemma extends_with_refl: "extends_with P w w"
  by (simp add: extends_with_def)

lemma extends_with_trans:
  assumes "extends_with P w w'" and "extends_with P w' w''"
  shows "extends_with P w w''"
proof -
  from assms(1) obtain evs where a: "trace w' = trace w @ evs" "list_all P evs" "db w' = db w"
      "mediaCache w' = mediaCache w" "replyRules w' = replyRules w"
    by (auto simp: extends_with_def)
  from assms(2) obtain evs' where b: "trace w'' = trace w' @ evs'" "list_all P evs'" "db w'' = db w'"
      "mediaCache w'' = mediaCache w'" "replyRules w'' = replyRules w'"
    by (auto simp: extends_with_def)
  from a b have "trace w'' = trace w @ (evs @ evs')" and "list_all P (evs @ evs')"
    by simp_all
  with a b show ?thesis
    unfolding extends_with_def by (intro exI [of _ "evs @ evs'"]) simp
qed

lemma emit_extends:
  assumes "P e"
  shows "extends_with P w (final_world (emit env e w))"
  using assms by (simp add: emit_def final_world_def extends_with_def)

lemma and_then_extends:
  assumes "extends_with P w (final_world r)"
    and "\<And>w'. r = Inr w' \<Longrightarrow> extends_with P w' (final_world (f w'))"
  shows "extends_with P w (final_world (and_then r f))"
proof (cases r)
  case (Inl x)
  with assms(1) show ?thesis by (simp add: and_then_def)
next
  case (Inr w')
  with assms(1) have "extends_with P w w'" by (simp add: final_world_def)
  moreover from assms(2) [OF Inr] have "extends_with P w' (final_world (f w'))" .
  ultimately show ?thesis
    using Inr by (simp add: and_then_def extends_with_trans)
qed

lemma save_status_image_extends:
  "extends_with is_status_save_event w (final_world (save_status_image env mek q i w))"
proof -
  let ?to = "remoteJid (key mek)"
  have failed: "extends_with is_status_save_event w'
       (final_world (emit env (SendMessage ?to (Notice FailedToSaveStatusImage) Quoted) w'))" for w'
    by (rule emit_extends) simp
  have sent: "extends_with is_status_save_event w
       (final_world (emit env (SendMessage ?to (Image b c) Quoted) w))" for b c
    by (rule emit_extends) simp
  show ?thesis
  proof (cases "downloadMediaMessage env q")
    case None
    with failed show ?thesis by (simp add: save_status_image_def)
  next
    case (Some buff)
    show ?thesis
    proof (cases "writeFile_ok env")
      case False
      with Some failed show ?thesis by (simp add: save_status_image_def)
    next
      case True
      let ?r = "emit env (SendMessage ?to (Image buff (or_else (caption i) [])) Quoted) w"
      show ?thesis
      proof (cases ?r)
        case (Inl x)
        obtain e w' where x: "x = (e, w')" by (cases x)
        from sent [of buff "or_else (caption i) []"] Inl x have "extends_with is_status_save_event w w'"
          by (simp add: final_world_def)
        from extends_with_trans [OF this failed [of w']] Some True Inl x show ?thesis
          by (simp add: save_status_image_def)
      next
        case (Inr w')
        from sent [of buff "or_else (caption i) []"] Inr have "extends_with is_status_save_event w w'"
          by (simp add: final_world_def)
        with Some True Inr show ?thesis
          by (simp add: save_status_image_def final_world_def)
      qed
    qed
  qed
qed


lemma save_status_video_extends:
  "extends_with is_status_save_event w (final_world (save_status_video env mek q i w))"
proof -
  let ?to = "remoteJid (key mek)"
  have failed: "extends_with is_status_save_event w'
       (final_world (emit env (SendMessage ?to (Notice FailedToSaveStatusVideo) Quoted) w'))" for w'
    by (rule emit_extends) simp
  have sent: "extends_with is_status_save_event w
       (final_world (emit env (SendMessage ?to (StatusVideo b c f) Quoted) w))" for b c f
    by (rule emit_extends) simp
  show ?thesis
  proof (cases "downloadMediaMessage env q")
    case None
    with failed show ?thesis by (simp add: save_status_video_def)
  next
    case (Some buff)
    show ?thesis
    proof (cases "writeFile_ok env")
      case False
      with Some failed show ?thesis by (simp add: save_status_video_def)
    next
      case True
      let ?r = "emit env (SendMessage ?to
                  (StatusVideo buff (or_else (caption i) []) (key_id (key mek) @ ''.mp4'')) Quoted) w"
      show ?thesis
      proof (cases ?r)
        case (Inl x)
        obtain e w' where x: "x = (e, w')" by (cases x)
        from sent [of buff "or_else (caption i) []" "key_id (key mek) @ ''.mp4''"] Inl x
        have "extends_with is_status_save_event w w'"
          by (simp add: final_world_def)
        from extends_with_trans [OF this failed [of w']] Some True Inl x show ?thesis
          by (simp add: save_status_video_def)
      next
        case (Inr w')
        from sent [of buff "or_else (caption i) []" "key_id (key mek) @ ''.mp4''"] Inr
        have "extends_with is_status_save_event w w'"
          by (simp add: final_world_def)
        with Some True Inr show ?thesis
          by (simp add: save_status_video_def final_world_def)
      qed
    qed
  qed
qed

lemma status_save_extends:
  "extends_with is_status_save_event w (final_world (status_save env mek w))"
proof -
  let ?to = "remoteJid (key mek)"
  have mention: "extends_with is_status_save_event w
       (final_world (emit env (SendMessage ?to (Notice PleaseMentionStatus) Quoted) w))"
    by (rule emit_extends) simp
  have not_status: "extends_with is_status_save_event w
       (final_world (emit env (SendMessage ?to (Notice QuotedNotStatus) Quoted) w))"
    by (rule emit_extends) simp
  have not_media: "extends_with is_status_save_event w
       (final_world (emit env (SendMessage ?to (Notice QuotedNotImageOrVideo) Quoted) w))"
    by (rule emit_extends) simp
  have thrown: "extends_with is_status_save_event w (final_world (Inl (TypeError, w)))"
    by (simp add: final_world_def extends_with_refl)
  show ?thesis
    unfolding status_save_def Let_def
    using mention not_status not_media thrown save_status_image_extends save_status_video_extends
    by (simp split: option.splits message.splits context_info.splits)
qed

lemma send_response_extends:
  "extends_with is_dispatch_event w (final_world (send_response env mek p u d r w))"
proof -
  define w1 where "w1 = (case delay r of
                  None \<Rightarrow> w
                | Some ms \<Rightarrow> if ms = 0 then w else w\<lparr>trace := trace w @ [Delay ms]\<rparr>)"
  have w1: "extends_with is_dispatch_event w w1"
    by (auto simp: w1_def extends_with_def split: option.splits)
  have step: "extends_with is_dispatch_event w
                (final_world (emit env (SendMessage to payload QuotedForwarded) w1))" for to payload
    by (rule extends_with_trans [OF w1]) (rule emit_extends, simp)
  have stay: "extends_with is_dispatch_event w (final_world (Inr w1))"
    using w1 by (simp add: final_world_def)
  show ?thesis
    unfolding send_response_def Let_def w1_def [symmetric]
    using step stay by (simp split: option.splits)
qed

lemma send_responses_extends:
  "extends_with is_dispatch_event w (final_world (send_responses env mek p u d rs w))"
proof (induction rs arbitrary: w)
  case Nil
  show ?case by (simp add: final_world_def extends_with_refl)
next
  case (Cons r rs)
  show ?case
    unfolding send_responses.simps
    by (rule and_then_extends) (rule send_response_extends, rule Cons.IH)
qed

text \<open>
  A rule either leaves the world as it was (the UPDATE was refused) or starts from
  the world right after the UPDATE and only adds delays and sends.
\<close>

lemma dispatch_rule_cases:
  "final_world (dispatch_rule env mek p u d r w) = w \<or>
   extends_with is_dispatch_event
     (w\<lparr>db := sql_update_auto_reply_sent (db w) (key_id (key mek)),
        trace := trace w @ [Query (UpdateAutoReplySent (key_id (key mek)))]\<rparr>)
     (final_world (dispatch_rule env mek p u d r w))"
proof (cases "query_ok env (UpdateAutoReplySent (key_id (key mek)))")
  case True
  then show ?thesis
    using send_responses_extends
    by (simp add: dispatch_rule_def mark_auto_reply_sent_def and_then_def)
next
  case False
  then show ?thesis
    by (simp add: dispatch_rule_def mark_auto_reply_sent_def and_then_def final_world_def)
qed

lemma match_rules_cases:
  "final_world (match_rules env mek t p u d rules w) = w \<or>
   extends_with is_dispatch_event
     (w\<lparr>db := sql_update_auto_reply_sent (db w) (key_id (key mek)),
        trace := trace w @ [Query (UpdateAutoReplySent (key_id (key mek)))]\<rparr>)
     (final_world (match_rules env mek t p u d rules w))"
proof (induction rules)
  case Nil
  show ?case by (simp add: final_world_def)
next
  case (Cons rule rules)
  then show ?case
    using dispatch_rule_cases [of env mek p u d rule w] by auto
qed

lemma rule_path_cases:
  "final_world (rule_path cfg env mek t w) = w \<or>
   extends_with is_dispatch_event
     (w\<lparr>db := sql_update_auto_reply_sent (db w) (key_id (key mek)),
        trace := trace w @ [Query (UpdateAutoReplySent (key_id (key mek)))]\<rparr>)
     (final_world (rule_path cfg env mek t w))"
  unfolding rule_path_def Let_def
  using match_rules_cases
  by (simp add: final_world_def split: option.splits)


section \<open>A failed download and the later deletion\<close>










section \<open>The events of the three paths\<close>

lemma grows_with_refl: "grows_with P w w"
  by (simp add: grows_with_def)

lemma grows_with_trans:
  assumes "grows_with P w w'" and "grows_with P w' w''"
  shows "grows_with P w w''"
proof -
  from assms(1) obtain evs where a: "trace w' = trace w @ evs" "list_all P evs"
    by (auto simp: grows_with_def)
  from assms(2) obtain evs' where b: "trace w'' = trace w' @ evs'" "list_all P evs'"
    by (auto simp: grows_with_def)
  from a b have "trace w'' = trace w @ (evs @ evs')" and "list_all P (evs @ evs')"
    by simp_all
  then show ?thesis
    unfolding grows_with_def by blast
qed

lemma extends_grows:
  assumes "extends_with P w w'" and "\<And>e. P e \<Longrightarrow> Q e"
  shows "grows_with Q w w'"
proof -
  from assms(1) obtain evs where "trace w' = trace w @ evs" "list_all P evs"
    by (auto simp: extends_with_def)
  moreover from this(2) assms(2) have "list_all Q evs"
    by (auto simp: list_all_iff)
  ultimately show ?thesis
    unfolding grows_with_def by blast
qed

lemma emit_grows:
  assumes "trace w1 = trace w" and "P e"
  shows "grows_with P w (final_world (emit env e w1))"
  using assms by (simp add: emit_def final_world_def grows_with_def)

lemma and_then_grows:
  assumes "grows_with P w (final_world r)"
    and "\<And>w'. r = Inr w' \<Longrightarrow> grows_with P w' (final_world (f w'))"
  shows "grows_with P w (final_world (and_then r f))"
proof (cases r)
  case (Inl x)
  with assms(1) show ?thesis by (simp add: and_then_def)
next
  case (Inr w')
  with assms(1) have "grows_with P w w'" by (simp add: final_world_def)
  moreover from assms(2) [OF Inr] have "grows_with P w' (final_world (f w'))" .
  ultimately show ?thesis
    using Inr by (simp add: and_then_def grows_with_trans)
qed

lemma dispatch_event_not_status: "is_dispatch_event e \<Longrightarrow> \<not> is_status_save_event e"
  by (cases e rule: is_dispatch_event.cases) simp_all

lemma rule_path_grows:
  "grows_with (\<lambda>e. \<not> is_status_save_event e) w (final_world (rule_path cfg env mek t w))"
proof -
  let ?marked = "w\<lparr>db := sql_update_auto_reply_sent (db w) (key_id (key mek)),
                    trace := trace w @ [Query (UpdateAutoReplySent (key_id (key mek)))]\<rparr>"
  from rule_path_cases [of cfg env mek t w] show ?thesis
  proof
    assume "final_world (rule_path cfg env mek t w) = w"
    then show ?thesis by (simp add: grows_with_refl)
  next
    assume "extends_with is_dispatch_event ?marked (final_world (rule_path cfg env mek t w))"
    then have "grows_with (\<lambda>e. \<not> is_status_save_event e) ?marked
                 (final_world (rule_path cfg env mek t w))"
      by (rule extends_grows) (rule dispatch_event_not_status)
    moreover have "grows_with (\<lambda>e. \<not> is_status_save_event e) w ?marked"
      by (simp add: grows_with_def)
    ultimately show ?thesis
      by (rule grows_with_trans [rotated])
  qed
qed

lemma delete_command_grows:
  "grows_with (\<lambda>e. \<not> is_status_save_event e) w (final_world (delete_command env mek t w))"
proof -
  obtain result s where run:
    "handleDelete (case first_arg t of None \<Rightarrow> False | Some a \<Rightarrow> toLowerCase a = ''clear'')
       (faults env) \<lparr>store = db w, txn_view = None\<rparr> = (result, s)"
    by (cases "handleDelete (case first_arg t of None \<Rightarrow> False | Some a \<Rightarrow> toLowerCase a = ''clear'')
       (faults env) \<lparr>store = db w, txn_view = None\<rparr>")
  have answer: "grows_with (\<lambda>e. \<not> is_status_save_event e) w
       (final_world (emit env (SendMessage (remoteJid (key mek)) (Notice n) Quoted)
                        (w\<lparr>db := store s\<rparr>)))"
    if "n = DatabaseCleared \<or> n = DeleteOperationFailed \<or> (\<exists>rows. n = DeletedWithImages rows)" for n
    using that by (intro emit_grows) auto
  show ?thesis
    unfolding delete_command_def Let_def run prod.case
    using answer by (auto split: delete_result.splits)
qed

lemma command_path_grows:
  "grows_with (\<lambda>e. \<not> is_status_save_event e) w (final_world (command_path cfg env mek t w))"
proof -
  have answer: "grows_with (\<lambda>e. \<not> is_status_save_event e) w
       (final_world (emit env (SendMessage (remoteJid (key mek)) (Notice n) Quoted) w1))"
    if "trace w1 = trace w"
      and "n = Pong \<or> n = BotRuntime \<or> n = OnlyOwnersReload \<or> n = OnlyOwnersDelete \<or>
           (\<exists>ok. n = ReloadResult ok)" for n w1
    using that by (intro emit_grows) auto
  have reloaded: "trace (snd (reloadJsonFile env w)) = trace w"
    by (simp add: reloadJsonFile_def split: reload_outcome.splits)
  have stay: "grows_with (\<lambda>e. \<not> is_status_save_event e) w (final_world (Inr w))"
    by (simp add: final_world_def grows_with_refl)
  show ?thesis
    unfolding command_path_def Let_def
    using answer reloaded stay delete_command_grows [of w env mek t]
    by (auto split: prod.splits)
qed

section \<open>Properties of the handler of new messages\<close>

text \<open>
  C10. After a message is stored, the handler takes the status-save path exactly
  when its whole text is a member of the list of trigger words (and not empty):
  then what it does is \<open>status_save\<close>, which sends only answers of the
  status-save path and leaves the table, the cache and the rules alone. For every
  other text, also one that contains a trigger word as a substring, what it does
  is the rule path followed by the command path, and no answer of the status-save
  path is sent. Membership compares whole strings, so case matters.
\<close>

theorem status_save_only_on_exact_word:
  "(t \<noteq> [] \<and> t \<in> set (statusTriggers cfg) \<longrightarrow>
      route cfg env mek t w = status_save env mek w \<and>
      extends_with is_status_save_event w (final_world (route cfg env mek t w))) \<and>
   (t = [] \<or> t \<notin> set (statusTriggers cfg) \<longrightarrow>
      route cfg env mek t w
        = and_then (rule_path cfg env mek t w) (command_path cfg env mek t) \<and>
      grows_with (\<lambda>e. \<not> is_status_save_event e) w (final_world (route cfg env mek t w))) \<and>
   (trig \<in> set (statusTriggers cfg) \<and> includes_str t trig \<and> t \<notin> set (statusTriggers cfg) \<longrightarrow>
      route cfg env mek t w
        = and_then (rule_path cfg env mek t w) (command_path cfg env mek t) \<and>
      grows_with (\<lambda>e. \<not> is_status_save_event e) w (final_world (route cfg env mek t w)))"
proof -
  have status: "route cfg env mek t w = status_save env mek w \<and>
      extends_with is_status_save_event w (final_world (route cfg env mek t w))"
    if "t \<noteq> [] \<and> t \<in> set (statusTriggers cfg)"
  proof -
    from that have "route cfg env mek t w = status_save env mek w"
      by (simp add: route_def)
    with status_save_extends [of w env mek] show ?thesis by simp
  qed
  have other: "route cfg env mek t w
        = and_then (rule_path cfg env mek t w) (command_path cfg env mek t) \<and>
      grows_with (\<lambda>e. \<not> is_status_save_event e) w (final_world (route cfg env mek t w))"
    if "t = [] \<or> t \<notin> set (statusTriggers cfg)"
  proof -
    from that have same: "route cfg env mek t w
        = and_then (rule_path cfg env mek t w) (command_path cfg env mek t)"
      by (auto simp: route_def)
    have "grows_with (\<lambda>e. \<not> is_status_save_event e) w
      (final_world (and_then (rule_path cfg env mek t w) (command_path cfg env mek t)))"
      by (rule and_then_grows) (rule rule_path_grows, rule command_path_grows)
    with same show ?thesis by simp
  qed
  from status other show ?thesis by blast
qed

text \<open>
  With the default words: \<open>send\<close> alone asks for a status (here without a quote,
  so the answer is the request to mention one); \<open>send menu\<close> contains the word
  and goes to the rules, of which the first matches.
\<close>

theorem status_save_only_on_exact_word_witness:
  "''send'' \<in> set (statusTriggers example_config) \<and>
   includes_str ''send menu'' ''send'' \<and>
   ''send menu'' \<notin> set (statusTriggers example_config) \<and>
   trace (final_world (route example_config example_env example_mek ''send'' example_world))
     = [SendMessage ''a@s.whatsapp.net'' (Notice PleaseMentionStatus) Quoted] \<and>
   trace (final_world (route example_config example_env example_mek ''send menu'' example_world))
     = [Query (UpdateAutoReplySent ''M1''),
        SendMessage ''a@s.whatsapp.net'' (Text (Some ''Hello Bob'')) QuotedForwarded,
        Delay 500,
        SendMessage ''a@s.whatsapp.net'' (Text (Some ''1. Pizza'')) QuotedForwarded]"
proof -
  have member: "''send'' \<noteq> [] \<and> ''send'' \<in> set (statusTriggers example_config)"
    and sub: "includes_str ''send menu'' ''send''"
    and other: "''send menu'' \<notin> set (statusTriggers example_config)"
    by (simp_all add: example_config_def default_statusTriggers_def includes_str_def
          startsWith_def)
  have saved: "trace (final_world (status_save example_env example_mek example_world))
     = [SendMessage ''a@s.whatsapp.net'' (Notice PleaseMentionStatus) Quoted]"
    by code_simp
  have ruled: "trace (final_world
            (and_then (rule_path example_config example_env example_mek ''send menu'' example_world)
               (command_path example_config example_env example_mek ''send menu'')))
     = [Query (UpdateAutoReplySent ''M1''),
        SendMessage ''a@s.whatsapp.net'' (Text (Some ''Hello Bob'')) QuotedForwarded,
        Delay 500,
        SendMessage ''a@s.whatsapp.net'' (Text (Some ''1. Pizza'')) QuotedForwarded]"
    by code_simp
  from status_save_only_on_exact_word
         [of "''send''" example_config example_env example_mek example_world] member saved
  have a: "trace (final_world (route example_config example_env example_mek ''send'' example_world))
     = [SendMessage ''a@s.whatsapp.net'' (Notice PleaseMentionStatus) Quoted]"
    by simp
  from status_save_only_on_exact_word
         [of "''send menu''" example_config example_env example_mek example_world "''send''"]
       member sub other ruled
  have b: "trace (final_world (route example_config example_env example_mek ''send menu'' example_world))
     = [Query (UpdateAutoReplySent ''M1''),
        SendMessage ''a@s.whatsapp.net'' (Text (Some ''Hello Bob'')) QuotedForwarded,
        Delay 500,
        SendMessage ''a@s.whatsapp.net'' (Text (Some ''1. Pizza'')) QuotedForwarded]"
    by simp
  from member sub other a b show ?thesis by simp
qed

section \<open>The deletion handler and the store\<close>




lemma handleDeletedMessage_unknown:
  assumes "key_id k \<notin> message_id ` set (messages (db w))"
    and "query_ok env (UpdateDeleted (or_else (participant k) (remoteJid k)) (key_id k))"
    and "query_ok env (SelectMessage (key_id k))"
  shows "handleDeletedMessage_body env k w =
           Inr (w\<lparr>trace := trace w @
                   [Query (UpdateDeleted (or_else (participant k) (remoteJid k)) (key_id k)),
                    Query (SelectMessage (key_id k))]\<rparr>)"
proof -
  from assms(1) have same: "sql_update_deleted (db w) (or_else (participant k) (remoteJid k))
                        (key_id k) (clock_db env) = db w"
    by (rule update_deleted_unknown)
  from assms(1) have none: "sql_select_by_message_id (db w) (key_id k) = []"
    by (force simp: sql_select_by_message_id_def filter_empty_conv)
  show ?thesis
    using assms(2,3) by (simp add: handleDeletedMessage_body_def Let_def same none)
qed

section \<open>No other event fills the cache for an id\<close>












section \<open>A failed download, later events and the deletion\<close>






end
